theory Spec2Isabelle
  imports Complex_Main "HOL-Library.Word"
begin

section \<open>CyclicColourVisual: a disc legend for cyclic colour maps\<close>

text \<open>
  The development embeds the class \<open>mplot::CyclicColourVisual\<close> (the mesh fill of the disc,
  the placement of the tick labels and \<open>initializeVertices\<close>) and states the properties of the
  specification over that embedding.

  Conventions of the embedding.
  \<^item> \<open>float\<close> and the template type \<open>F\<close> are read as \<open>real\<close>: every arithmetic operation is
    the exact one, rounding is not part of the model. Division is HOL's total division;
    where the program would divide by zero the text says so.
  \<^item> \<open>unsigned int\<close> is \<open>32 word\<close>. A conversion to \<open>int\<close> is \<open>sint\<close>, a conversion of an
    \<open>int\<close> to \<open>unsigned int\<close> is \<open>word_of_int\<close>.
  \<^item> A member function is a function from the object before the call to the object after it.
\<close>

subsection \<open>Data\<close>

type_synonym vec = "real \<times> real \<times> real"
type_synonym colour = "real \<times> real \<times> real"
type_synonym GLuint = "32 word"

text \<open>\<open>sm::vec\<close> arithmetic as it is used by the class: sum of two vectors, vector times scalar.\<close>

fun vadd :: "vec \<Rightarrow> vec \<Rightarrow> vec" where
  "vadd (a, b, c) (d, e, f) = (a + d, b + e, c + f)"

fun smul :: "vec \<Rightarrow> real \<Rightarrow> vec" where
  "smul (a, b, c) k = (a * k, b * k, c * k)"

text \<open>\<open>sm::mathconst\<close>: the two constants the class reads.\<close>

definition two_pi :: real where
  "two_pi = 2 * pi"

definition pi_over_2 :: real where
  "pi_over_2 = pi / 2"

text \<open>\<open>mplot::TextFeatures\<close>, the fields the constructor sets.\<close>

record TextFeatures =
  fontsize :: real
  fontres :: int
  colour :: colour

text \<open>
  Modelled from the spec: \<open>mplot::TextGeometry\<close> is declared outside the sources at hand. The
  text-measurement contract "returns width, height, half-width, half-height of the rendered
  footprint"; the measurement itself is a parameter \<open>getTextGeometry\<close> of the functions below,
  a function of the text style and the string.
\<close>

record TextGeometry =
  width :: real
  height :: real
  half_width :: real
  half_height :: real

text \<open>
  Modelled from the spec: the text object made by \<open>makeVisualTextModel\<close> and \<open>setupText\<close> is
  "an opaque renderable text object" produced from "a final anchor position and colour"; it is
  kept as the three arguments of \<open>setupText\<close>.
\<close>

record VisualTextModel =
  text_string :: string
  text_position :: vec
  text_colour :: colour

text \<open>
  The object. The first block of fields is inherited from \<open>VisualModel\<close> (declared outside the
  sources at hand): the three vertex sequences, the index sequence, the running vertex index
  \<open>idx\<close>, the text objects, the model offset and the three unit axes. Modelled from the spec:
  the vertex data are "three parallel ordered sequences (positions: 3-vectors, normals:
  3-vectors, colours: 3-tuples)" and one index sequence.
\<close>

record CyclicColourVisual =
  vertexPositions :: "vec list"
  vertexNormals :: "vec list"
  vertexColors :: "colour list"
  indices :: "GLuint list"
  idx :: GLuint
  texts :: "VisualTextModel list"
  mv_offset :: vec
  ux :: vec
  uy :: vec
  uz :: vec
  show_perception_sine :: bool
  outer_radius :: real
  inner_radius :: real
  z :: real
  framecolour :: colour
  draw_frame :: bool
  framelinewidth :: real
  labels :: "string list"
  label_angles :: "real list"
  tf :: TextFeatures
  draw_ticks :: bool
  ticklabelgap :: real
  numsegs :: "32 word"
  numrings :: "32 word"
  ticklabelheight :: real
  ticklabelwidth :: real

text \<open>
  Modelled from the spec: \<open>vertex_push\<close> is a member of \<open>VisualModel\<close>; it "appends a vertex
  (position/normal/colour) to growing buffers", one sequence per call.
\<close>

definition vertex_push :: "vec \<Rightarrow> vec list \<Rightarrow> vec list" where
  "vertex_push v vp = vp @ [v]"

subsection \<open>fillFrameWithColour\<close>

text \<open>
  The colours of segment \<open>j\<close> (lines 126 to 134 of the class): the pair \<open>(col_in, col_out)\<close>.
  The colour map \<open>cm\<close> enters as its \<open>convert\<close> function.
\<close>

definition segment_colours ::
  "(real \<Rightarrow> colour) \<Rightarrow> CyclicColourVisual \<Rightarrow> real \<Rightarrow> real \<Rightarrow> int \<Rightarrow> colour \<times> colour" where
  "segment_colours cm st norm_r_in norm_r_out j =
     (let colour_angle = (real_of_int j / real (unat (numsegs st))) * two_pi;
          decaying_sine_out =
            (if show_perception_sine st
             then 0.1 * norm_r_out * norm_r_out * sin (20 * pi * colour_angle) else 0);
          decaying_sine_in =
            (if show_perception_sine st
             then 0.1 * norm_r_in * norm_r_in * sin (20 * pi * colour_angle) else 0);
          col_out = cm (colour_angle / two_pi + decaying_sine_out);
          col_in = cm (colour_angle / two_pi + decaying_sine_in)
      in (col_in, col_out))"

text \<open>The point of the circle of radius \<open>r\<close> at segment \<open>j\<close> (lines 136, 137 and 141).\<close>

definition circle_point :: "CyclicColourVisual \<Rightarrow> int \<Rightarrow> real \<Rightarrow> vec" where
  "circle_point st j r =
     (let t = real_of_int j * two_pi / real (unat (numsegs st))
      in vadd (smul (smul (uy st) (sin t)) r) (smul (smul (ux st) (cos t)) r))"

text \<open>The body of the first inner loop: six pushes for segment \<open>j\<close>.\<close>

definition push_segment ::
  "(real \<Rightarrow> colour) \<Rightarrow> real \<Rightarrow> real \<Rightarrow> real \<Rightarrow> real \<Rightarrow> int \<Rightarrow>
   CyclicColourVisual \<Rightarrow> CyclicColourVisual" where
  "push_segment cm r_in r_out norm_r_in norm_r_out j st =
     (let centre = (0, 0, z st);
          (col_in, col_out) = segment_colours cm st norm_r_in norm_r_out j;
          c_in = circle_point st j r_in;
          st1 = st\<lparr>vertexPositions := vertex_push (vadd centre c_in) (vertexPositions st)\<rparr>;
          st2 = st1\<lparr>vertexNormals := vertex_push (uz st1) (vertexNormals st1)\<rparr>;
          st3 = st2\<lparr>vertexColors := vertex_push col_in (vertexColors st2)\<rparr>;
          c_out = circle_point st3 j r_out;
          st4 = st3\<lparr>vertexPositions := vertex_push (vadd centre c_out) (vertexPositions st3)\<rparr>;
          st5 = st4\<lparr>vertexNormals := vertex_push (uz st4) (vertexNormals st4)\<rparr>
      in st5\<lparr>vertexColors := vertex_push col_out (vertexColors st5)\<rparr>)"

text \<open>
  The first inner loop, \<open>for (int j = 0; j < static_cast<int>(numsegs); j++)\<close>. The bound is
  the segment count converted to \<open>int\<close>.
\<close>

function vertexLoop ::
  "(real \<Rightarrow> colour) \<Rightarrow> real \<Rightarrow> real \<Rightarrow> real \<Rightarrow> real \<Rightarrow> int \<Rightarrow>
   CyclicColourVisual \<Rightarrow> CyclicColourVisual" where
  "vertexLoop cm r_in r_out norm_r_in norm_r_out j st =
     (if j < sint (numsegs st)
      then vertexLoop cm r_in r_out norm_r_in norm_r_out (j + 1)
             (push_segment cm r_in r_out norm_r_in norm_r_out j st)
      else st)"
  by pat_completeness auto
termination
  by (relation "measure (\<lambda>(cm, r_in, r_out, nri, nro, j, st). nat (sint (numsegs st) - j))")
     (auto simp: push_segment_def Let_def split: prod.splits)

declare vertexLoop.simps [simp del]

text \<open>
  The successor segment, \<open>int jn = (numsegs + ((j+1) % numsegs)) % numsegs\<close>: \<open>j+1\<close> is
  converted to \<open>unsigned int\<close>, the sum and both remainders are unsigned, the result is
  converted back to \<open>int\<close>. The loop calls it with a nonzero segment count only.
\<close>

definition next_segment :: "32 word \<Rightarrow> int \<Rightarrow> int" where
  "next_segment n j = sint ((n + (word_of_int (j + 1) mod n)) mod n)"

text \<open>
  The body of the second inner loop: the six indices of segment \<open>j\<close>. Each \<open>int\<close> offset is
  converted to \<open>unsigned int\<close> by the addition to \<open>idx\<close>. (For \<open>j\<close> from \<open>2^30\<close> on the
  \<open>int\<close> product \<open>2*j\<close> overflows in the program; no statement below reaches that far.)
\<close>

definition push_triangles :: "int \<Rightarrow> CyclicColourVisual \<Rightarrow> CyclicColourVisual" where
  "push_triangles j st =
     (let jn = next_segment (numsegs st) j
      in st\<lparr>indices := indices st @
            [idx st + word_of_int (2 * j),
             idx st + word_of_int (2 * jn),
             idx st + word_of_int (2 * jn + 1),
             idx st + word_of_int (2 * j),
             idx st + word_of_int (2 * jn + 1),
             idx st + word_of_int (2 * j + 1)]\<rparr>)"

function indexLoop :: "int \<Rightarrow> CyclicColourVisual \<Rightarrow> CyclicColourVisual" where
  "indexLoop j st =
     (if j < sint (numsegs st) then indexLoop (j + 1) (push_triangles j st) else st)"
  by pat_completeness auto
termination
  by (relation "measure (\<lambda>(j, st). nat (sint (numsegs st) - j))")
     (auto simp: push_triangles_def Let_def)

declare indexLoop.simps [simp del]

text \<open>
  One pass of the outer loop for the ring \<open>ring\<close> (lines 114 to 157), and the outer loop
  \<open>for (int ring = numrings; ring > 0; ring--)\<close>. The ring count is not zero inside the
  loop. The two normalized radii divide by \<open>r_d\<close>: for \<open>outer_radius = inner_radius\<close> they are
  \<open>0/0\<close>, a NaN in the program and 0 here. The program reads them with the overlay enabled
  only (lines 129 to 132), and then hands a NaN to the converter; the colours of that case
  are outside the model, and no statement below about colours reaches it. Positions, normals
  and indices do not depend on the normalized radii.
\<close>

definition fill_ring ::
  "(real \<Rightarrow> colour) \<Rightarrow> int \<Rightarrow> CyclicColourVisual \<Rightarrow> CyclicColourVisual" where
  "fill_ring cm ring st =
     (let r_d = outer_radius st - inner_radius st;
          r_dr = r_d / real (unat (numrings st));
          r_out = inner_radius st + r_dr * real_of_int ring;
          r_in = inner_radius st + r_dr * real_of_int (ring - 1);
          norm_r_out = (r_out - inner_radius st) / r_d;
          norm_r_in = (r_in - inner_radius st) / r_d;
          st1 = vertexLoop cm r_in r_out norm_r_in norm_r_out 0 st;
          st2 = indexLoop 0 st1
      in st2\<lparr>idx := idx st2 + 2 * numsegs st2\<rparr>)"

function ringLoop ::
  "(real \<Rightarrow> colour) \<Rightarrow> int \<Rightarrow> CyclicColourVisual \<Rightarrow> CyclicColourVisual" where
  "ringLoop cm ring st =
     (if ring > 0 then ringLoop cm (ring - 1) (fill_ring cm ring st) else st)"
  by pat_completeness auto
termination
  by (relation "measure (\<lambda>(cm, ring, st). nat ring)") auto

declare ringLoop.simps [simp del]

definition fillFrameWithColour ::
  "(real \<Rightarrow> colour) \<Rightarrow> CyclicColourVisual \<Rightarrow> CyclicColourVisual" where
  "fillFrameWithColour cm st = ringLoop cm (sint (numrings st)) st"

subsection \<open>drawFrame\<close>

text \<open>
  Modelled from the spec: \<open>computeFlatCircleLine\<close> is a member of \<open>VisualModel\<close>, outside the
  sources at hand. It "appends to vertex/index buffers" a ribbon of flat quads around a full
  circle, a "side effect" that "grows the shared buffers; no return value beyond the mutation".
  It is a parameter of \<open>drawFrame\<close>: a function of its six arguments (centre, normal, radius,
  line width, colour, segment count) from the mesh data before the call to the mesh data
  after it, the mesh data being the three vertex sequences, the indices and \<open>idx\<close>.
\<close>

record MeshData =
  mesh_positions :: "vec list"
  mesh_normals :: "vec list"
  mesh_colors :: "colour list"
  mesh_indices :: "GLuint list"
  mesh_idx :: GLuint

type_synonym FlatCircleLine =
  "vec \<Rightarrow> vec \<Rightarrow> real \<Rightarrow> real \<Rightarrow> colour \<Rightarrow> 32 word \<Rightarrow> MeshData \<Rightarrow> MeshData"

definition on_mesh :: "(MeshData \<Rightarrow> MeshData) \<Rightarrow> CyclicColourVisual \<Rightarrow> CyclicColourVisual" where
  "on_mesh f st =
     (let m = f \<lparr>mesh_positions = vertexPositions st, mesh_normals = vertexNormals st,
                 mesh_colors = vertexColors st, mesh_indices = indices st, mesh_idx = idx st\<rparr>
      in st\<lparr>vertexPositions := mesh_positions m, vertexNormals := mesh_normals m,
            vertexColors := mesh_colors m, indices := mesh_indices m, idx := mesh_idx m\<rparr>)"

definition drawFrame :: "FlatCircleLine \<Rightarrow> CyclicColourVisual \<Rightarrow> CyclicColourVisual" where
  "drawFrame computeFlatCircleLine st =
     (let st1 = on_mesh (computeFlatCircleLine (0, 0, z st) (uz st)
                           (outer_radius st + framelinewidth st / 2)
                           (framelinewidth st) (framecolour st) (numsegs st)) st
      in on_mesh (computeFlatCircleLine (0, 0, z st1) (uz st1)
                    (inner_radius st1 + framelinewidth st1 / 2)
                    (framelinewidth st1) (framecolour st1) (numsegs st1)) st1)"

subsection \<open>drawTickLabels\<close>

text \<open>
  What can go wrong in the label pass, as values. An index past the end of a \<open>std::deque\<close> is
  undefined behaviour in the program and \<open>IndexOutOfRange\<close> here. A floating-point division by
  zero is no trap in the program (it yields an infinity or a NaN); the model reports it as
  \<open>DivisionByZero\<close>, so that a result \<open>Inr\<close> says that no such division took place.
\<close>

datatype error = IndexOutOfRange | DivisionByZero

definition fdiv :: "real \<Rightarrow> real \<Rightarrow> error + real" where
  "fdiv x y = (if y = 0 then Inl DivisionByZero else Inr (x / y))"

text \<open>\<open>std::deque::resize\<close> with value-initialised new elements.\<close>

definition resize :: "nat \<Rightarrow> real list \<Rightarrow> real list" where
  "resize n xs = take n xs @ replicate (n - length xs) 0"

text \<open>
  The body of the first loop (lines 82 to 85) for the counter \<open>i\<close>: three assignments to
  \<open>label_angles[i]\<close>.
\<close>

definition assign_angle :: "nat \<Rightarrow> real \<Rightarrow> CyclicColourVisual \<Rightarrow> error + CyclicColourVisual" where
  "assign_angle k a st =
     (if k < length (label_angles st)
      then Inr (st\<lparr>label_angles := (label_angles st)[k := a]\<rparr>)
      else Inl IndexOutOfRange)"

definition read_angle :: "nat \<Rightarrow> CyclicColourVisual \<Rightarrow> error + real" where
  "read_angle k st =
     (if k < length (label_angles st) then Inr (label_angles st ! k) else Inl IndexOutOfRange)"

definition set_label_angle :: "32 word \<Rightarrow> CyclicColourVisual \<Rightarrow> error + CyclicColourVisual" where
  "set_label_angle i st =
     (case fdiv two_pi (real (length (labels st))) of
        Inl e \<Rightarrow> Inl e
      | Inr step \<Rightarrow>
         (case assign_angle (unat i) (pi_over_2 + real (unat i) * step) st of
            Inl e \<Rightarrow> Inl e
          | Inr st1 \<Rightarrow>
             (case read_angle (unat i) st1 of
                Inl e \<Rightarrow> Inl e
              | Inr a1 \<Rightarrow>
                 (case assign_angle (unat i) (if a1 < 0 then a1 + two_pi else a1) st1 of
                    Inl e \<Rightarrow> Inl e
                  | Inr st2 \<Rightarrow>
                     (case read_angle (unat i) st2 of
                        Inl e \<Rightarrow> Inl e
                      | Inr a2 \<Rightarrow>
                         assign_angle (unat i) (if a2 > two_pi then a2 - two_pi else a2) st2)))))"

text \<open>
  The first loop, \<open>for (unsigned int i = 0; i < labels.size(); ++i)\<close>. The counter has 32
  bits and wraps; with \<open>2^32\<close> labels or more the loop does not end, which is the value \<open>None\<close>.
\<close>

partial_function (option) anglesLoop ::
  "32 word \<Rightarrow> CyclicColourVisual \<Rightarrow> (error + CyclicColourVisual) option" where
  "anglesLoop i st =
     (if unat i < length (labels st)
      then (case set_label_angle i st of
              Inl e \<Rightarrow> Some (Inl e)
            | Inr st1 \<Rightarrow> anglesLoop (i + 1) st1)
      else Some (Inr st))"

text \<open>The three local values of the second loop (lines 96 to 102).\<close>

definition geom_gap :: "real \<Rightarrow> TextGeometry \<Rightarrow> real" where
  "geom_gap a geom = \<bar>cos a * half_width geom\<bar> + \<bar>sin a * half_height geom\<bar>"

definition lbl_r :: "CyclicColourVisual \<Rightarrow> real \<Rightarrow> TextGeometry \<Rightarrow> real" where
  "lbl_r st a geom =
     outer_radius st + framelinewidth st + ticklabelgap st + geom_gap a geom"

definition lblpos :: "CyclicColourVisual \<Rightarrow> real \<Rightarrow> TextGeometry \<Rightarrow> vec" where
  "lblpos st a geom =
     (lbl_r st a geom * cos a - half_width geom,
      lbl_r st a geom * sin a - half_height geom,
      z st)"

text \<open>The body of the second loop (lines 90 to 104) for the counter \<open>i\<close>.\<close>

definition place_label ::
  "(TextFeatures \<Rightarrow> string \<Rightarrow> TextGeometry) \<Rightarrow> 32 word \<Rightarrow> CyclicColourVisual \<Rightarrow>
   error + CyclicColourVisual" where
  "place_label getTextGeometry i st =
     (if unat i < length (labels st)
      then
        (let s = labels st ! unat i;
             geom = getTextGeometry (tf st) s;
             st1 = st\<lparr>ticklabelheight :=
                       (if height geom > ticklabelheight st then height geom
                        else ticklabelheight st)\<rparr>;
             st2 = st1\<lparr>ticklabelwidth :=
                        (if width geom > ticklabelwidth st1 then width geom
                         else ticklabelwidth st1)\<rparr>
         in case read_angle (unat i) st2 of
              Inl e \<Rightarrow> Inl e
            | Inr a \<Rightarrow>
               Inr (st2\<lparr>texts := texts st2 @
                          [\<lparr>text_string = s,
                            text_position = vadd (lblpos st2 a geom) (mv_offset st2),
                            text_colour = colour (tf st2)\<rparr>]\<rparr>))
      else Inl IndexOutOfRange)"

text \<open>
  The second loop, \<open>for (unsigned int i = 0; i < label_angles.size(); ++i)\<close>, with the same
  32-bit counter.
\<close>

partial_function (option) placeLoop ::
  "(TextFeatures \<Rightarrow> string \<Rightarrow> TextGeometry) \<Rightarrow> 32 word \<Rightarrow> CyclicColourVisual \<Rightarrow>
   (error + CyclicColourVisual) option" where
  "placeLoop getTextGeometry i st =
     (if unat i < length (label_angles st)
      then (case place_label getTextGeometry i st of
              Inl e \<Rightarrow> Some (Inl e)
            | Inr st1 \<Rightarrow> placeLoop getTextGeometry (i + 1) st1)
      else Some (Inr st))"

definition drawTickLabels ::
  "(TextFeatures \<Rightarrow> string \<Rightarrow> TextGeometry) \<Rightarrow> CyclicColourVisual \<Rightarrow>
   (error + CyclicColourVisual) option" where
  "drawTickLabels getTextGeometry st =
     (let st1 = st\<lparr>ticklabelheight := 0\<rparr>;
          st2 = st1\<lparr>ticklabelwidth := 0\<rparr>;
          filled =
            (if label_angles st2 = []
             then anglesLoop 0
                    (st2\<lparr>label_angles := resize (length (labels st2)) (label_angles st2)\<rparr>)
             else Some (Inr st2))
      in case filled of
           None \<Rightarrow> None
         | Some (Inl e) \<Rightarrow> Some (Inl e)
         | Some (Inr st3) \<Rightarrow> placeLoop getTextGeometry 0 st3)"

subsection \<open>initializeVertices and the constructor\<close>

definition initializeVertices ::
  "(TextFeatures \<Rightarrow> string \<Rightarrow> TextGeometry) \<Rightarrow> FlatCircleLine \<Rightarrow> (real \<Rightarrow> colour) \<Rightarrow>
   CyclicColourVisual \<Rightarrow> (error + CyclicColourVisual) option" where
  "initializeVertices getTextGeometry computeFlatCircleLine cm st =
     (let em_geom = getTextGeometry (tf st) ''m'';
          st1 = st\<lparr>ticklabelgap := width em_geom / 2\<rparr>;
          st2 = (if draw_frame st1 then drawFrame computeFlatCircleLine st1 else st1);
          labelled = (if draw_ticks st2 then drawTickLabels getTextGeometry st2
                      else Some (Inr st2))
      in case labelled of
           None \<Rightarrow> None
         | Some (Inl e) \<Rightarrow> Some (Inl e)
         | Some (Inr st3) \<Rightarrow> Some (Inr (fillFrameWithColour cm st3)))"

text \<open>
  Modelled from the spec: \<open>unicode::toUtf8(unicode::pi)\<close> is declared outside the sources at
  hand; the label text is "UTF-8, may contain multi-byte symbols", and the UTF-8 form of the
  Greek letter pi is the two bytes below.
\<close>

definition utf8_pi :: string where
  "utf8_pi = [CHR 0xCF, CHR 0x80]"

text \<open>
  The constructor together with the default member initialisers (lines 25 to 37 and 162 to
  193), with empty mesh data and no text objects; \<open>mplot::colour::black\<close> is the zero triple
  and the unit axes of \<open>VisualModel\<close> are the coordinate axes.
\<close>

definition CyclicColourVisual_new :: "vec \<Rightarrow> CyclicColourVisual" where
  "CyclicColourVisual_new offset =
     \<lparr>vertexPositions = [], vertexNormals = [], vertexColors = [], indices = [], idx = 0,
      texts = [], mv_offset = offset, ux = (1, 0, 0), uy = (0, 1, 0), uz = (0, 0, 1),
      show_perception_sine = True, outer_radius = 1, inner_radius = 0.3, z = 0,
      framecolour = (0, 0, 0), draw_frame = False, framelinewidth = 0.01,
      labels = [utf8_pi @ ''/2'', utf8_pi, ''3'' @ utf8_pi @ ''/2'', ''0''],
      label_angles = [],
      tf = \<lparr>fontsize = 0.15, fontres = 36, colour = (0, 0, 0)\<rparr>,
      draw_ticks = True, ticklabelgap = 0.05, numsegs = 128, numrings = 64,
      ticklabelheight = 0, ticklabelwidth = 0\<rparr>"

subsection \<open>ColourMap\<close>

text \<open>
  Modelled from the spec: \<open>mplot::ColourMap\<close> and its \<open>convert\<close> are declared in
  \<open>mplot/ColourMap.h\<close>, outside the sources at hand. A colour map is a family (whether it is
  cyclic, and its colour function on the unit interval) with an input range
  \<open>{range_min, range_max}\<close>. \<open>convert\<close> takes its value "either as a normalized scalar in [0,1]
  (for cyclic/continuous use) or as a raw value of a declared numeric input type interpreted
  against a configurable \<open>{range_min, range_max}\<close> to produce a normalized fraction before
  mapping". On a normalized scalar: "for a cyclic map, input is implicitly modulo-1 (i.e. an
  input of 1.25 is equivalent to 0.25)"; a non-cyclic map clamps to [0,1]. On a raw value:
  "the fractional position is \<open>(value - range_min) / (range_max - range_min)\<close>", and "division
  by zero when \<open>range_max == range_min\<close> is undefined", here \<open>None\<close>. Every numeric input type
  is read as \<open>real\<close>.
\<close>

record ColourMap =
  cm_cyclic :: bool
  cm_colour :: "real \<Rightarrow> colour"
  range_min :: real
  range_max :: real

definition convert :: "ColourMap \<Rightarrow> real \<Rightarrow> colour" where
  "convert cmap x = cm_colour cmap (if cm_cyclic cmap then frac x else max 0 (min 1 x))"

definition convert_value :: "ColourMap \<Rightarrow> real \<Rightarrow> colour option" where
  "convert_value cmap v =
     (if range_max cmap = range_min cmap then None
      else Some (convert cmap ((v - range_min cmap) / (range_max cmap - range_min cmap))))"

text \<open>
  Modelled from the spec: of the reference Jet-style family the specification documents that
  it is not cyclic and that its midpoint colour is "a fixed literal RGB triple, e.g.
  \<open>(0.541, 0.76, 0.018)\<close>"; its colour table is outside the sources at hand. A colour map is of
  that family, as far as the specification goes, when it has these two properties.
\<close>

definition jet_midpoint :: colour where
  "jet_midpoint = (0.541, 0.76, 0.018)"

definition is_jet :: "ColourMap \<Rightarrow> bool" where
  "is_jet cmap \<longleftrightarrow> \<not> cm_cyclic cmap \<and> cm_colour cmap (1 / 2) = jet_midpoint"

subsection \<open>What the loops append\<close>

text \<open>
  The blocks that the loops of \<open>fillFrameWithColour\<close> append, written as lists: the two
  positions, the two colours and the six indices of a segment, and the same for all segments
  of a ring. \<open>same_config\<close> says that two objects agree on every field these blocks read.
\<close>

definition seg_positions :: "CyclicColourVisual \<Rightarrow> real \<Rightarrow> real \<Rightarrow> int \<Rightarrow> vec list" where
  "seg_positions st r_in r_out j =
     [vadd (0, 0, z st) (circle_point st j r_in), vadd (0, 0, z st) (circle_point st j r_out)]"

definition seg_colours :: "(real \<Rightarrow> colour) \<Rightarrow> CyclicColourVisual \<Rightarrow> real \<Rightarrow> real \<Rightarrow> int \<Rightarrow> colour list" where
  "seg_colours cm st nri nro j =
     [fst (segment_colours cm st nri nro j), snd (segment_colours cm st nri nro j)]"

definition seg_triangles :: "32 word \<Rightarrow> 32 word \<Rightarrow> int \<Rightarrow> GLuint list" where
  "seg_triangles base n j =
     [base + word_of_int (2 * j),
      base + word_of_int (2 * next_segment n j),
      base + word_of_int (2 * next_segment n j + 1),
      base + word_of_int (2 * j),
      base + word_of_int (2 * next_segment n j + 1),
      base + word_of_int (2 * j + 1)]"

definition ring_positions :: "CyclicColourVisual \<Rightarrow> int \<Rightarrow> vec list" where
  "ring_positions st ring =
     (let r_dr = (outer_radius st - inner_radius st) / real (unat (numrings st))
      in concat (map (seg_positions st (inner_radius st + r_dr * real_of_int (ring - 1))
                                       (inner_radius st + r_dr * real_of_int ring))
                     [0..sint (numsegs st) - 1]))"

definition ring_normals :: "CyclicColourVisual \<Rightarrow> vec list" where
  "ring_normals st = concat (map (\<lambda>j. [uz st, uz st]) [0..sint (numsegs st) - 1])"

definition ring_colours :: "(real \<Rightarrow> colour) \<Rightarrow> CyclicColourVisual \<Rightarrow> int \<Rightarrow> colour list" where
  "ring_colours cm st ring =
     (let r_d = outer_radius st - inner_radius st;
          r_dr = r_d / real (unat (numrings st))
      in concat (map (seg_colours cm st
                        ((inner_radius st + r_dr * real_of_int (ring - 1) - inner_radius st) / r_d)
                        ((inner_radius st + r_dr * real_of_int ring - inner_radius st) / r_d))
                     [0..sint (numsegs st) - 1]))"

definition ring_triangles :: "32 word \<Rightarrow> 32 word \<Rightarrow> GLuint list" where
  "ring_triangles base n = concat (map (seg_triangles base n) [0..sint n - 1])"

definition same_config :: "CyclicColourVisual \<Rightarrow> CyclicColourVisual \<Rightarrow> bool" where
  "same_config st' st \<longleftrightarrow>
     numsegs st' = numsegs st \<and> numrings st' = numrings st \<and>
     outer_radius st' = outer_radius st \<and> inner_radius st' = inner_radius st \<and>
     z st' = z st \<and> ux st' = ux st \<and> uy st' = uy st \<and> uz st' = uz st \<and>
     show_perception_sine st' = show_perception_sine st"

text \<open>
  The same for \<open>drawTickLabels\<close>: the value that the three assignments of the first loop
  leave in \<open>label_angles[k]\<close> for \<open>n\<close> labels; the angles the second loop works with (the
  client's, or the generated ones); the running maximum as the second loop keeps it; and the
  text object it appends for the label \<open>k\<close>.
\<close>

definition angle_value :: "nat \<Rightarrow> nat \<Rightarrow> real" where
  "angle_value n k =
     (let a0 = pi_over_2 + real k * (two_pi / real n);
          a1 = (if a0 < 0 then a0 + two_pi else a0)
      in if a1 > two_pi then a1 - two_pi else a1)"

definition final_angles :: "CyclicColourVisual \<Rightarrow> real list" where
  "final_angles st =
     (if label_angles st = []
      then map (angle_value (length (labels st))) [0..<length (labels st)]
      else label_angles st)"

definition upd_max :: "real \<Rightarrow> real \<Rightarrow> real" where
  "upd_max cur x = (if x > cur then x else cur)"

definition placed_text ::
  "(TextFeatures \<Rightarrow> string \<Rightarrow> TextGeometry) \<Rightarrow> CyclicColourVisual \<Rightarrow> nat \<Rightarrow> VisualTextModel" where
  "placed_text getTextGeometry st k =
     \<lparr>text_string = labels st ! k,
      text_position = vadd (lblpos st (label_angles st ! k)
                              (getTextGeometry (tf st) (labels st ! k))) (mv_offset st),
      text_colour = colour (tf st)\<rparr>"

subsection \<open>The formulas of the specification\<close>

text \<open>
  The two triangles of segment \<open>j\<close> in the words of the specification: "for segment \<open>j\<close> and
  its successor \<open>jn = (j+1) mod segment_count\<close>, two triangles \<open>(2j, 2jn, 2jn+1)\<close> and
  \<open>(2j, 2jn+1, 2j+1)\<close>, all relative to a running base offset", as natural numbers.
\<close>

definition spec_segment_triangles :: "nat \<Rightarrow> nat \<Rightarrow> nat \<Rightarrow> nat list" where
  "spec_segment_triangles base n j =
     (let jn = (j + 1) mod n
      in [base + 2 * j, base + 2 * jn, base + 2 * jn + 1,
          base + 2 * j, base + 2 * jn + 1, base + 2 * j + 1])"

text \<open>
  The colour fraction of a vertex in the words of the specification: the fraction
  \<open>j/segment_count\<close>, and with the perceptual-test overlay a sinusoid added to it "whose
  amplitude scales with \<open>0.1 \<times> (normalized_radial_position)\<^sup>2\<close> and whose spatial frequency is
  \<open>20\<pi>\<close> in the colour-angle variable", the colour angle being the fraction of a full turn.
\<close>

definition spec_colour_fraction :: "bool \<Rightarrow> real \<Rightarrow> real \<Rightarrow> real \<Rightarrow> real" where
  "spec_colour_fraction overlay j n norm_r =
     j / n + (if overlay then 0.1 * norm_r\<^sup>2 * sin (20 * pi * (j / n * (2 * pi))) else 0)"

subsection \<open>Concrete instances\<close>

text \<open>
  Parameters to run the functions on: a grey ramp as colour function; a fixed-pitch text
  measurement in which every character is half the font size wide and the font size high,
  and the empty string has no extent; a ribbon builder that appends one vertex per segment,
  at the centre; a cyclic colour map on the grey ramp; and a colour map with the two
  documented properties of the Jet family (grey away from the midpoint), on the range from 0
  to 1.
\<close>

definition grey_ramp :: "real \<Rightarrow> colour" where
  "grey_ramp x = (x, x, x)"

definition fixed_pitch :: "TextFeatures \<Rightarrow> string \<Rightarrow> TextGeometry" where
  "fixed_pitch f s =
     \<lparr>width = fontsize f * real (length s) / 2,
      height = (if s = [] then 0 else fontsize f),
      half_width = fontsize f * real (length s) / 4,
      half_height = (if s = [] then 0 else fontsize f / 2)\<rparr>"

definition centre_ribbon :: FlatCircleLine where
  "centre_ribbon c n r w col segs m =
     m\<lparr>mesh_positions := mesh_positions m @ replicate (unat segs) c,
       mesh_normals := mesh_normals m @ replicate (unat segs) n,
       mesh_colors := mesh_colors m @ replicate (unat segs) col,
       mesh_idx := mesh_idx m + segs\<rparr>"

definition cyclic_ramp :: ColourMap where
  "cyclic_ramp = \<lparr>cm_cyclic = True, cm_colour = grey_ramp, range_min = 0, range_max = 1\<rparr>"

definition jet_like :: ColourMap where
  "jet_like =
     \<lparr>cm_cyclic = False,
      cm_colour = (\<lambda>x. if x = 1 / 2 then jet_midpoint else grey_ramp x),
      range_min = 0, range_max = 1\<rparr>"

text \<open>
  Objects, each the default object with some fields set: a small disc of two rings and three
  segments; a ring count and a segment count that do not fit an \<open>int\<close>; one empty label at
  angle 0; no labels; and no labels with \<open>draw_ticks\<close> unset.
\<close>

definition small_disc :: CyclicColourVisual where
  "small_disc = (CyclicColourVisual_new (0, 0, 0))\<lparr>numsegs := 3, numrings := 2\<rparr>"

definition many_rings :: CyclicColourVisual where
  "many_rings = (CyclicColourVisual_new (0, 0, 0))\<lparr>numsegs := 1, numrings := 2147483648\<rparr>"

definition many_segments :: CyclicColourVisual where
  "many_segments = (CyclicColourVisual_new (0, 0, 0))\<lparr>numsegs := 2147483648, numrings := 1\<rparr>"

definition blank_label :: CyclicColourVisual where
  "blank_label = (CyclicColourVisual_new (0, 0, 0))\<lparr>labels := [''''], label_angles := [0]\<rparr>"

definition no_labels :: CyclicColourVisual where
  "no_labels = (CyclicColourVisual_new (0, 0, 0))\<lparr>labels := []\<rparr>"

definition no_ticks :: CyclicColourVisual where
  "no_ticks = (CyclicColourVisual_new (0, 0, 0))\<lparr>labels := [], draw_ticks := False\<rparr>"

section \<open>The loops in closed form\<close>

lemma push_segment_eq:
  "push_segment cm r_in r_out nri nro j st =
     st\<lparr>vertexPositions := vertexPositions st @
           [vadd (0, 0, z st) (circle_point st j r_in), vadd (0, 0, z st) (circle_point st j r_out)],
        vertexNormals := vertexNormals st @ [uz st, uz st],
        vertexColors := vertexColors st @
           [fst (segment_colours cm st nri nro j), snd (segment_colours cm st nri nro j)]\<rparr>"
  by (simp add: push_segment_def vertex_push_def Let_def circle_point_def split: prod.splits)

lemma push_segment_fields [simp]:
  "numsegs (push_segment cm r_in r_out nri nro j st) = numsegs st"
  "uz (push_segment cm r_in r_out nri nro j st) = uz st"
  "seg_positions (push_segment cm r_in r_out nri nro j st) = seg_positions st"
  "seg_colours cm' (push_segment cm r_in r_out nri nro j st) = seg_colours cm' st"
  by (simp_all add: push_segment_eq seg_positions_def seg_colours_def circle_point_def
        segment_colours_def fun_eq_iff)

lemma vertexLoop_eq:
  "vertexLoop cm r_in r_out nri nro j st =
     st\<lparr>vertexPositions := vertexPositions st @
           concat (map (seg_positions st r_in r_out) [j..sint (numsegs st) - 1]),
        vertexNormals := vertexNormals st @
           concat (map (\<lambda>j. [uz st, uz st]) [j..sint (numsegs st) - 1]),
        vertexColors := vertexColors st @
           concat (map (seg_colours cm st nri nro) [j..sint (numsegs st) - 1])\<rparr>"
proof (induction cm r_in r_out nri nro j st rule: vertexLoop.induct)
  case (1 cm r_in r_out nri nro j st)
  show ?case
  proof (cases "j < sint (numsegs st)")
    case True
    have up: "[j..sint (numsegs st) - 1] = j # [j + 1..sint (numsegs st) - 1]"
      using True by (simp add: upto_rec1)
    have step: "vertexLoop cm r_in r_out nri nro j st =
          vertexLoop cm r_in r_out nri nro (j + 1) (push_segment cm r_in r_out nri nro j st)"
      using True by (subst vertexLoop.simps) simp
    show ?thesis
      unfolding step "1.IH"[OF True]
      by (simp add: up) (simp add: push_segment_eq seg_positions_def seg_colours_def)
  next
    case False
    then show ?thesis by (subst vertexLoop.simps) simp
  qed
qed

lemma push_triangles_eq:
  "push_triangles j st = st\<lparr>indices := indices st @ seg_triangles (idx st) (numsegs st) j\<rparr>"
  by (simp add: push_triangles_def seg_triangles_def Let_def)

lemma indexLoop_eq:
  "indexLoop j st =
     st\<lparr>indices := indices st @
           concat (map (seg_triangles (idx st) (numsegs st)) [j..sint (numsegs st) - 1])\<rparr>"
proof (induction j st rule: indexLoop.induct)
  case (1 j st)
  show ?case
  proof (cases "j < sint (numsegs st)")
    case True
    have up: "[j..sint (numsegs st) - 1] = j # [j + 1..sint (numsegs st) - 1]"
      using True by (simp add: upto_rec1)
    have step: "indexLoop j st = indexLoop (j + 1) (push_triangles j st)"
      using True by (subst indexLoop.simps) simp
    show ?thesis
      unfolding step "1.IH"[OF True]
      by (simp add: up push_triangles_eq)
  next
    case False
    then show ?thesis by (subst indexLoop.simps) simp
  qed
qed

lemma fill_ring_eq:
  "fill_ring cm ring st =
     st\<lparr>vertexPositions := vertexPositions st @ ring_positions st ring,
        vertexNormals := vertexNormals st @ ring_normals st,
        vertexColors := vertexColors st @ ring_colours cm st ring,
        indices := indices st @ ring_triangles (idx st) (numsegs st),
        idx := idx st + 2 * numsegs st\<rparr>"
  by (simp add: fill_ring_def Let_def vertexLoop_eq indexLoop_eq ring_positions_def
        ring_normals_def ring_colours_def ring_triangles_def)

lemma same_config_segs:
  assumes "same_config st' st"
  shows "seg_positions st' = seg_positions st"
    and "seg_colours cm st' = seg_colours cm st"
  using assms
  by (auto simp add: same_config_def seg_positions_def seg_colours_def circle_point_def
        segment_colours_def fun_eq_iff)

lemma same_config_blocks:
  assumes "same_config st' st"
  shows "ring_positions st' = ring_positions st"
    and "ring_normals st' = ring_normals st"
    and "ring_colours cm st' = ring_colours cm st"
  using assms
  by (simp_all add: same_config_segs ring_positions_def ring_normals_def ring_colours_def
        fun_eq_iff) (simp_all add: same_config_def)

lemma fill_ring_same_config: "same_config (fill_ring cm ring st) st"
  by (simp add: fill_ring_eq same_config_def)

lemma fill_ring_fields [simp]:
  "numsegs (fill_ring cm ring st) = numsegs st"
  "ring_positions (fill_ring cm ring st) = ring_positions st"
  "ring_normals (fill_ring cm ring st) = ring_normals st"
  "ring_colours cm' (fill_ring cm ring st) = ring_colours cm' st"
  using same_config_blocks[OF fill_ring_same_config]
  by (simp_all add: fill_ring_eq)

lemma ringLoop_eq:
  "0 \<le> ring \<Longrightarrow> ringLoop cm ring st =
     st\<lparr>vertexPositions := vertexPositions st @ concat (map (ring_positions st) (rev [1..ring])),
        vertexNormals := vertexNormals st @ concat (map (\<lambda>r. ring_normals st) (rev [1..ring])),
        vertexColors := vertexColors st @ concat (map (ring_colours cm st) (rev [1..ring])),
        indices := indices st @
           concat (map (\<lambda>r. ring_triangles (idx st + word_of_int (ring - r) * (2 * numsegs st))
                               (numsegs st)) (rev [1..ring])),
        idx := idx st + word_of_int ring * (2 * numsegs st)\<rparr>"
proof (induction cm ring st rule: ringLoop.induct)
  case (1 cm ring st)
  show ?case
  proof (cases "ring > 0")
    case True
    have up: "rev [1..ring] = ring # rev [1..ring - 1]"
      using True by (simp add: upto_rec2)
    have step: "ringLoop cm ring st = ringLoop cm (ring - 1) (fill_ring cm ring st)"
      using True by (subst ringLoop.simps) simp
    have ih: "ringLoop cm (ring - 1) (fill_ring cm ring st) = 
       (fill_ring cm ring st)\<lparr>vertexPositions := vertexPositions (fill_ring cm ring st) @ concat (map (ring_positions (fill_ring cm ring st)) (rev [1..ring - 1])),
        vertexNormals := vertexNormals (fill_ring cm ring st) @ concat (map (\<lambda>r. ring_normals (fill_ring cm ring st)) (rev [1..ring - 1])),
        vertexColors := vertexColors (fill_ring cm ring st) @ concat (map (ring_colours cm (fill_ring cm ring st)) (rev [1..ring - 1])),
        indices := indices (fill_ring cm ring st) @
           concat (map (\<lambda>r. ring_triangles (idx (fill_ring cm ring st) + word_of_int (ring - 1 - r) * (2 * numsegs (fill_ring cm ring st)))
                               (numsegs (fill_ring cm ring st))) (rev [1..ring - 1])),
        idx := idx (fill_ring cm ring st) + word_of_int (ring - 1) * (2 * numsegs (fill_ring cm ring st))\<rparr>"
      using "1.IH"[OF True] True by simp
    have base: "idx st + 2 * numsegs st + (word_of_int ring - 1 - word_of_int r) * (2 * numsegs st)
        = idx st + (word_of_int ring - word_of_int r) * (2 * numsegs st)" for r
      by (simp add: algebra_simps)
    show ?thesis
      unfolding step ih
      by (simp add: up) (simp add: fill_ring_eq base algebra_simps)
  next
    case False
    with "1.prems" have "ring = 0" by simp
    then show ?thesis by (subst ringLoop.simps) simp
  qed
qed

lemma uint_unat32: "uint (w :: 32 word) = int (unat w)"
  by simp

lemma uint_small: "unat (w :: 32 word) < 2 ^ 31 \<Longrightarrow> uint w < 2 ^ 31"
  by (metis uint_unat32 of_nat_less_iff of_nat_numeral of_nat_power)

lemma signed_take_bit_uint_small: "uint (w :: 32 word) < 2 ^ 31 \<Longrightarrow> signed_take_bit 31 (uint w) = uint w"
proof (rule signed_take_bit_int_eq_self)
  have "- (2 ^ 31) \<le> (0 :: int)" by simp
  also have "0 \<le> uint w" by simp
  finally show "- (2 ^ 31) \<le> uint w" .
qed simp

lemma sint_uint32: "sint (w :: 32 word) = signed_take_bit 31 (uint w)"
  by (simp add: sint_uint)

lemma sint_small: "unat (w :: 32 word) < 2 ^ 31 \<Longrightarrow> sint w = int (unat w)"
  using signed_take_bit_uint_small[OF uint_small] sint_uint32[of w] uint_unat32[of w] by presburger

lemma ringLoop_nonpos: "ring \<le> 0 \<Longrightarrow> ringLoop cm ring st = st"
  by (subst ringLoop.simps) simp

lemma fillFrameWithColour_lists:
  "vertexPositions (fillFrameWithColour cm st) =
     vertexPositions st @ concat (map (ring_positions st) (rev [1..sint (numrings st)]))"
  "vertexNormals (fillFrameWithColour cm st) =
     vertexNormals st @ concat (map (\<lambda>r. ring_normals st) (rev [1..sint (numrings st)]))"
  "vertexColors (fillFrameWithColour cm st) =
     vertexColors st @ concat (map (ring_colours cm st) (rev [1..sint (numrings st)]))"
  "indices (fillFrameWithColour cm st) =
     indices st @ concat (map (\<lambda>r. ring_triangles
         (idx st + word_of_int (sint (numrings st) - r) * (2 * numsegs st)) (numsegs st))
       (rev [1..sint (numrings st)]))"
proof -
  show "vertexPositions (fillFrameWithColour cm st) =
     vertexPositions st @ concat (map (ring_positions st) (rev [1..sint (numrings st)]))"
    by (cases "0 \<le> sint (numrings st)")
       (simp_all add: fillFrameWithColour_def ringLoop_eq ringLoop_nonpos)
  show "vertexNormals (fillFrameWithColour cm st) =
     vertexNormals st @ concat (map (\<lambda>r. ring_normals st) (rev [1..sint (numrings st)]))"
    by (cases "0 \<le> sint (numrings st)")
       (simp_all add: fillFrameWithColour_def ringLoop_eq ringLoop_nonpos)
  show "vertexColors (fillFrameWithColour cm st) =
     vertexColors st @ concat (map (ring_colours cm st) (rev [1..sint (numrings st)]))"
    by (cases "0 \<le> sint (numrings st)")
       (simp_all add: fillFrameWithColour_def ringLoop_eq ringLoop_nonpos)
  show "indices (fillFrameWithColour cm st) =
     indices st @ concat (map (\<lambda>r. ring_triangles
         (idx st + word_of_int (sint (numrings st) - r) * (2 * numsegs st)) (numsegs st))
       (rev [1..sint (numrings st)]))"
    by (cases "0 \<le> sint (numrings st)")
       (simp_all add: fillFrameWithColour_def ringLoop_eq ringLoop_nonpos)
qed

lemma length_seg_blocks:
  "length (concat (map (seg_positions st a b) xs)) = 2 * length xs"
  "length (concat (map (\<lambda>j. [uz st, uz st]) xs)) = 2 * length xs"
  "length (concat (map (seg_colours cm st c d) xs)) = 2 * length xs"
  "length (concat (map (seg_triangles base n) xs)) = 6 * length xs"
  by (induction xs) (simp_all add: seg_positions_def seg_colours_def seg_triangles_def)

lemma length_ring_blocks:
  "length (ring_positions st r) = 2 * nat (sint (numsegs st))"
  "length (ring_normals st) = 2 * nat (sint (numsegs st))"
  "length (ring_colours cm st r) = 2 * nat (sint (numsegs st))"
  "length (ring_triangles base n) = 6 * nat (sint n)"
  by (simp_all add: ring_positions_def ring_normals_def ring_colours_def ring_triangles_def
        Let_def length_seg_blocks)

lemma length_rings:
  "length (concat (map (ring_positions st) rs)) = length rs * (2 * nat (sint (numsegs st)))"
  "length (concat (map (\<lambda>r. ring_normals st) rs)) = length rs * (2 * nat (sint (numsegs st)))"
  "length (concat (map (ring_colours cm st) rs)) = length rs * (2 * nat (sint (numsegs st)))"
  "length (concat (map (\<lambda>r. ring_triangles (f r) n) rs)) = length rs * (6 * nat (sint n))"
  by (induction rs) (simp_all add: length_ring_blocks)

section \<open>The fill pass\<close>

subsection \<open>Vertex and triangle counts\<close>

text \<open>
  Claim C1, as amended. For a ring count below \<open>2^31\<close> and a segment count of at most
  \<open>2^30\<close> (the counts for which the \<open>int\<close> loop counters and the \<open>int\<close> offsets \<open>2*j+1\<close>
  hold the values), \<open>fillFrameWithColour\<close> appends exactly
  \<open>2 \<times> ring_count \<times> segment_count\<close> positions, as many normals and as many colours, and
  \<open>6 \<times> ring_count \<times> segment_count\<close> index entries, which are
  \<open>2 \<times> ring_count \<times> segment_count\<close> triangles.
\<close>

theorem fill_counts:
  assumes "unat (numrings st) < 2 ^ 31" and "unat (numsegs st) \<le> 2 ^ 30"
  shows "length (vertexPositions (fillFrameWithColour cm st)) =
           length (vertexPositions st) + 2 * unat (numrings st) * unat (numsegs st) \<and>
         length (vertexNormals (fillFrameWithColour cm st)) =
           length (vertexNormals st) + 2 * unat (numrings st) * unat (numsegs st) \<and>
         length (vertexColors (fillFrameWithColour cm st)) =
           length (vertexColors st) + 2 * unat (numrings st) * unat (numsegs st) \<and>
         length (indices (fillFrameWithColour cm st)) =
           length (indices st) + 6 * unat (numrings st) * unat (numsegs st)"
proof -
  have r: "sint (numrings st) = int (unat (numrings st))"
    using assms(1) by (rule sint_small)
  have s: "sint (numsegs st) = int (unat (numsegs st))"
    using assms(2) by (intro sint_small) simp
  show ?thesis
    by (simp add: fillFrameWithColour_lists length_rings r s)
qed

theorem fill_counts_witness:
  "unat (numrings small_disc) < 2 ^ 31 \<and> unat (numsegs small_disc) \<le> 2 ^ 30 \<and>
   length (vertexPositions (fillFrameWithColour grey_ramp small_disc)) = 12 \<and>
   length (vertexNormals (fillFrameWithColour grey_ramp small_disc)) = 12 \<and>
   length (vertexColors (fillFrameWithColour grey_ramp small_disc)) = 12 \<and>
   length (indices (fillFrameWithColour grey_ramp small_disc)) = 36"
proof -
  have r: "unat (numrings small_disc) < 2 ^ 31"
    by (simp add: small_disc_def CyclicColourVisual_new_def)
  have s: "unat (numsegs small_disc) \<le> 2 ^ 30"
    by (simp add: small_disc_def CyclicColourVisual_new_def)
  show ?thesis
    using fill_counts[OF r s, of grey_ramp] r s
    by (simp add: small_disc_def CyclicColourVisual_new_def)
qed

text \<open>
  The claim as it stands, for every ring count, fails: a ring count of \<open>2^31\<close> converts to a
  negative \<open>int\<close>, the outer loop is not entered and nothing is appended, where the claim
  counts \<open>2 \<times> 2^31 \<times> 1\<close> vertices.
\<close>

theorem fill_counts_counterexample:
  "\<not> (length (vertexPositions (fillFrameWithColour grey_ramp many_rings)) =
        length (vertexPositions many_rings) +
        2 * unat (numrings many_rings) * unat (numsegs many_rings))"
proof -
  have "sint (numrings many_rings) \<le> 0"
    by (simp add: many_rings_def CyclicColourVisual_new_def)
  then have "fillFrameWithColour grey_ramp many_rings = many_rings"
    by (simp add: fillFrameWithColour_def ringLoop_nonpos)
  then show ?thesis
    by (simp add: many_rings_def CyclicColourVisual_new_def)
qed

subsection \<open>The triangles of the annulus\<close>

lemma unat_of_nat32: "m < 2 ^ 32 \<Longrightarrow> unat (word_of_nat m :: 32 word) = m"
  by (simp add: unat_of_nat)

lemma next_segment_unat:
  assumes "j < unat (n :: 32 word)" and "unat n \<le> 2 ^ 30"
  shows "unat ((n + (word_of_nat (j + 1) mod n)) mod n) = (j + 1) mod unat n"
proof -
  have lt: "(j + 1) mod unat n < unat n" using assms(1) by simp
  have "j + 1 < 2 ^ 32" using assms by simp
  then have a: "unat (word_of_nat (j + 1) :: 32 word) = j + 1"
    by (rule unat_of_nat32)
  have b: "unat (word_of_nat (j + 1) mod n) = (j + 1) mod unat n"
    by (simp only: unat_mod a)
  have "unat n + (j + 1) mod unat n < 2 * unat n" using lt by linarith
  also have "\<dots> \<le> 2 * 2 ^ 30" using assms(2) by linarith
  also have "\<dots> < (2::nat) ^ LENGTH(32)" by simp
  finally have "unat n + unat (word_of_nat (j + 1) mod n) < 2 ^ LENGTH(32)"
    by (simp only: b)
  then have c: "unat (n + (word_of_nat (j + 1) mod n)) = unat n + (j + 1) mod unat n"
    using unat_add_lem[THEN iffD1, of n "word_of_nat (j + 1) mod n"] by (simp only: b)
  show ?thesis
    by (simp only: unat_mod c) simp
qed

lemma next_segment_eq:
  assumes "j < unat n" and "unat n \<le> 2 ^ 30"
  shows "next_segment n (int j) = int ((j + 1) mod unat n)"
proof -
  have w: "word_of_int (int j + 1) = (word_of_nat (j + 1) :: 32 word)" by simp
  have "unat ((n + (word_of_nat (j + 1) mod n)) mod n) < 2 ^ 31"
  proof -
    have "(j + 1) mod unat n < unat n" using assms(1) by simp
    moreover have "(2::nat) ^ 30 < 2 ^ 31" by simp
    ultimately have "(j + 1) mod unat n < 2 ^ 31" using assms(2) by linarith
    then show ?thesis by (simp only: next_segment_unat[OF assms])
  qed
  then show ?thesis
    unfolding next_segment_def w by (simp only: sint_small next_segment_unat[OF assms])
qed

lemma unat_offset:
  assumes "unat (base :: 32 word) + m < 2 ^ 32"
  shows "unat (base + word_of_int (int m)) = unat base + m"
proof -
  have m: "unat (word_of_nat m :: 32 word) = m"
    using assms by (intro unat_of_nat32) simp
  have "unat base + unat (word_of_nat m :: 32 word) < 2 ^ LENGTH(32)"
    using assms by (simp only: m) simp
  then have "unat (base + word_of_nat m) = unat base + unat (word_of_nat m :: 32 word)"
    by (rule unat_add_lem[THEN iffD1])
  then show ?thesis by (simp only: m of_int_of_nat_eq)
qed

lemma seg_triangles_unat:
  assumes "j < unat n" and "unat n \<le> 2 ^ 30" and "unat base + 2 * unat n \<le> 2 ^ 32"
  shows "map unat (seg_triangles base n (int j)) = spec_segment_triangles (unat base) (unat n) j"
proof -
  define jn where "jn = (j + 1) mod unat n"
  have jn: "jn < unat n" using assms(1) by (simp add: jn_def)
  have nx: "next_segment n (int j) = int jn"
    using next_segment_eq[OF assms(1,2)] by (simp only: jn_def)
  have e1: "unat (base + word_of_int (2 * int j)) = unat base + 2 * j"
    using unat_offset[of base "2 * j"] assms(1,3) by simp
  have e2: "unat (base + word_of_int (2 * int j + 1)) = unat base + 2 * j + 1"
    using unat_offset[of base "2 * j + 1"] assms(1,3) by (simp add: add.commute)
  have e3: "unat (base + word_of_int (2 * int jn)) = unat base + 2 * jn"
    using unat_offset[of base "2 * jn"] jn assms(3) by simp
  have e4: "unat (base + word_of_int (2 * int jn + 1)) = unat base + 2 * jn + 1"
    using unat_offset[of base "2 * jn + 1"] jn assms(3) by (simp add: add.commute)
  show ?thesis
    unfolding seg_triangles_def spec_segment_triangles_def nx Let_def jn_def[symmetric]
    by (simp only: list.map e1 e2 e3 e4)
qed

lemma upto_as_upt: "[0..int m - 1] = map int [0..<m]"
proof (induction m)
  case 0
  show ?case by simp
next
  case (Suc m)
  have "[0..int (Suc m) - 1] = [0..int m - 1] @ [int m]"
    using upto_rec2[of 0 "int m"] by simp
  then show ?case using Suc by simp
qed

lemma rev_upto_as_upt: "map g (rev [1..int m]) = map (\<lambda>k. g (int m - int k)) [0..<m]"
proof (induction m)
  case 0
  show ?case by simp
next
  case (Suc m)
  have a: "rev [1..int (Suc m)] = int (Suc m) # rev [1..int m]"
    using upto_rec2[of 1 "int (Suc m)"] by simp
  have b: "[0..<Suc m] = 0 # map Suc [0..<m]"
    by (metis upt_conv_Cons zero_less_Suc map_Suc_upt)
  show ?case
    unfolding a b using Suc by (simp add: comp_def)
qed

lemma ring_triangles_unat:
  assumes "unat n \<le> 2 ^ 30" and "unat base + 2 * unat n \<le> 2 ^ 32"
  shows "map unat (ring_triangles base n) =
           concat (map (spec_segment_triangles (unat base) (unat n)) [0..<unat n])"
proof -
  have "unat n < 2 ^ 31" using assms(1) by (rule order.strict_trans1) simp
  then have s: "sint n = int (unat n)" by (rule sint_small)
  have u: "[0..sint n - 1] = map int [0..<unat n]"
    unfolding s by (rule upto_as_upt)
  have "map unat (ring_triangles base n) =
          concat (map (\<lambda>j. map unat (seg_triangles base n (int j))) [0..<unat n])"
    unfolding ring_triangles_def u by (simp add: map_concat comp_def)
  also have "\<dots> = concat (map (\<lambda>j. spec_segment_triangles (unat base) (unat n) j) [0..<unat n])"
    by (rule arg_cong[where f=concat], rule map_cong[OF refl])
       (simp add: seg_triangles_unat[OF _ assms])
  finally show ?thesis .
qed

lemma ring_base_unat:
  assumes "unat (base :: 32 word) + 2 * unat (n :: 32 word) * k < 2 ^ 32"
  shows "unat (base + word_of_int (int k) * (2 * n)) = unat base + 2 * unat n * k"
proof -
  have "word_of_int (int k) * (2 * n) = (word_of_int (int (2 * unat n * k)) :: 32 word)"
    by simp
  then show ?thesis
    using unat_offset[OF assms] by (simp only:)
qed

lemma fill_indices_unat:
  assumes "unat (numrings st) < 2 ^ 31" and "unat (numsegs st) \<le> 2 ^ 30"
    and "unat (idx st) + 2 * unat (numrings st) * unat (numsegs st) \<le> 2 ^ 32"
  shows "map unat (indices (fillFrameWithColour cm st)) =
           map unat (indices st) @
           concat (map (\<lambda>k. concat (map (spec_segment_triangles
                                          (unat (idx st) + 2 * unat (numsegs st) * k)
                                          (unat (numsegs st)))
                                     [0..<unat (numsegs st)]))
                       [0..<unat (numrings st)])"
proof -
  have r: "sint (numrings st) = int (unat (numrings st))"
    using assms(1) by (rule sint_small)
  have blocks: "map (\<lambda>r. ring_triangles
         (idx st + word_of_int (int (unat (numrings st)) - r) * (2 * numsegs st)) (numsegs st))
       (rev [1..int (unat (numrings st))]) =
     map (\<lambda>k. ring_triangles (idx st + word_of_int (int k) * (2 * numsegs st)) (numsegs st))
       [0..<unat (numrings st)]"
    by (simp only: rev_upto_as_upt[where g = "\<lambda>r. ring_triangles
         (idx st + word_of_int (int (unat (numrings st)) - r) * (2 * numsegs st)) (numsegs st)"])
       simp
  have one: "map unat (ring_triangles (idx st + word_of_int (int k) * (2 * numsegs st)) (numsegs st)) =
      concat (map (spec_segment_triangles (unat (idx st) + 2 * unat (numsegs st) * k)
                     (unat (numsegs st))) [0..<unat (numsegs st)])"
    if k: "k < unat (numrings st)" for k
  proof -
    have "Suc k \<le> unat (numrings st)" using k by simp
    then have "unat (numsegs st) * Suc k \<le> unat (numsegs st) * unat (numrings st)"
      by (rule mult_le_mono2)
    then have le: "unat (idx st) + 2 * unat (numsegs st) * k + 2 * unat (numsegs st) \<le> 2 ^ 32"
      using assms(3) by (simp add: algebra_simps)
    have "unat (idx st) < 2 ^ 32" using unsigned_less[of "idx st"] by simp
    then have lt: "unat (idx st) + 2 * unat (numsegs st) * k < 2 ^ 32"
      using le by (cases "unat (numsegs st) = 0") simp_all
    have b: "unat (idx st + word_of_int (int k) * (2 * numsegs st)) =
               unat (idx st) + 2 * unat (numsegs st) * k"
      using lt by (rule ring_base_unat)
    show ?thesis
      using ring_triangles_unat[OF assms(2), of "idx st + word_of_int (int k) * (2 * numsegs st)"]
        le by (simp only: b)
  qed
  have "map unat (indices (fillFrameWithColour cm st)) =
          map unat (indices st) @
          concat (map (\<lambda>k. map unat (ring_triangles
             (idx st + word_of_int (int k) * (2 * numsegs st)) (numsegs st)))
             [0..<unat (numrings st)])"
    by (simp only: fillFrameWithColour_lists(4) r blocks map_append map_concat map_map comp_def)
  also have "concat (map (\<lambda>k. map unat (ring_triangles
             (idx st + word_of_int (int k) * (2 * numsegs st)) (numsegs st)))
             [0..<unat (numrings st)]) =
       concat (map (\<lambda>k. concat (map (spec_segment_triangles
                                          (unat (idx st) + 2 * unat (numsegs st) * k)
                                          (unat (numsegs st)))
                                     [0..<unat (numsegs st)]))
                       [0..<unat (numrings st)])"
  proof (rule arg_cong[where f=concat], rule map_cong[OF refl])
    fix k assume "k \<in> set [0..<unat (numrings st)]"
    then have "k < unat (numrings st)" by simp
    then show "map unat (ring_triangles
             (idx st + word_of_int (int k) * (2 * numsegs st)) (numsegs st)) =
       concat (map (spec_segment_triangles (unat (idx st) + 2 * unat (numsegs st) * k)
                      (unat (numsegs st))) [0..<unat (numsegs st)])"
      by (rule one)
  qed
  finally show ?thesis .
qed

lemma fill_idx:
  assumes "unat (numrings st) < 2 ^ 31"
  shows "idx (fillFrameWithColour cm st) = idx st + 2 * numsegs st * numrings st"
proof -
  have r: "sint (numrings st) = int (unat (numrings st))"
    using assms(1) by (rule sint_small)
  have "0 \<le> sint (numrings st)" unfolding r by simp
  then show ?thesis
    by (simp add: fillFrameWithColour_def ringLoop_eq)
qed

lemma spec_segment_triangles_bound:
  assumes "j < n" and "v \<in> set (spec_segment_triangles base n j)"
  shows "v < base + 2 * n"
proof -
  define jn where "jn = (j + 1) mod n"
  have "jn < n" using assms(1) by (simp add: jn_def)
  moreover have "v \<in> {base + 2 * j, base + 2 * jn, base + 2 * jn + 1, base + 2 * j + 1}"
    using assms(2) unfolding spec_segment_triangles_def Let_def jn_def[symmetric] by auto
  ultimately show ?thesis
    using assms(1) by auto
qed

lemma next_segment_iter:
  assumes "0 < unat n" and "unat n \<le> 2 ^ 30"
  shows "(next_segment n ^^ m) 0 = int (m mod unat n)"
proof (induction m)
  case 0
  show ?case by simp
next
  case (Suc m)
  have lt: "m mod unat n < unat n" using assms(1) by simp
  have "(next_segment n ^^ Suc m) 0 = next_segment n (int (m mod unat n))"
    using Suc by simp
  also have "\<dots> = int ((m mod unat n + 1) mod unat n)"
    using lt assms(2) by (rule next_segment_eq)
  also have "(m mod unat n + 1) mod unat n = Suc m mod unat n"
    by (simp add: mod_Suc_eq)
  finally show ?case .
qed

text \<open>
  Claim C2, as amended. Let the segment count be at least 3 and at most \<open>2^30\<close> and the
  ring count below \<open>2^31\<close>; on entry let the three vertex sequences have one length, let
  \<open>idx\<close> be that length, and let the vertex total after the pass fit the 32-bit indices.
  Then the pass emits, ring after ring and segment after segment, the two triangles
  \<open>(base+2j, base+2jn, base+2jn+1)\<close> and \<open>(base+2j, base+2jn+1, base+2j+1)\<close> with
  \<open>jn = (j+1) mod segment_count\<close>, the base being the vertex count on entry plus
  \<open>2 \<times> segment_count\<close> for every ring done before, and \<open>idx\<close> ends advanced by
  \<open>2 \<times> segment_count\<close> per ring. Every index of ring \<open>k\<close> is below the number of vertices
  appended when the ring's indices are pushed, the three vertex sequences end with one
  length, and the outer boundary (the edge from vertex \<open>base+2j+1\<close> to vertex
  \<open>base+2jn+1\<close> of the second triangle), followed from segment 0 through the successor
  \<open>jn\<close>, is back at segment 0 after exactly \<open>segment_count\<close> steps and not before.
\<close>

theorem fill_triangles:
  assumes "3 \<le> unat (numsegs st)" and "unat (numsegs st) \<le> 2 ^ 30"
    and "unat (numrings st) < 2 ^ 31"
    and "length (vertexNormals st) = length (vertexPositions st)"
    and "length (vertexColors st) = length (vertexPositions st)"
    and "unat (idx st) = length (vertexPositions st)"
    and "length (vertexPositions st) + 2 * unat (numrings st) * unat (numsegs st) \<le> 2 ^ 32"
  shows "map unat (indices (fillFrameWithColour cm st)) =
           map unat (indices st) @
           concat (map (\<lambda>k. concat (map (spec_segment_triangles
                                          (length (vertexPositions st) + 2 * unat (numsegs st) * k)
                                          (unat (numsegs st)))
                                     [0..<unat (numsegs st)]))
                       [0..<unat (numrings st)]) \<and>
         idx (fillFrameWithColour cm st) = idx st + 2 * numsegs st * numrings st \<and>
         (\<forall>k < unat (numrings st). \<forall>j < unat (numsegs st).
            \<forall>v \<in> set (spec_segment_triangles
                         (length (vertexPositions st) + 2 * unat (numsegs st) * k)
                         (unat (numsegs st)) j).
              v < length (vertexPositions st) + 2 * unat (numsegs st) * (k + 1) \<and>
              length (vertexPositions st) + 2 * unat (numsegs st) * (k + 1)
                \<le> length (vertexPositions (fillFrameWithColour cm st))) \<and>
         length (vertexNormals (fillFrameWithColour cm st)) =
           length (vertexPositions (fillFrameWithColour cm st)) \<and>
         length (vertexColors (fillFrameWithColour cm st)) =
           length (vertexPositions (fillFrameWithColour cm st)) \<and>
         (next_segment (numsegs st) ^^ unat (numsegs st)) 0 = 0 \<and>
         (\<forall>m. 0 < m \<and> m < unat (numsegs st) \<longrightarrow> (next_segment (numsegs st) ^^ m) 0 \<noteq> 0)"
proof -
  have cnt: "length (vertexPositions (fillFrameWithColour cm st)) =
               length (vertexPositions st) + 2 * unat (numrings st) * unat (numsegs st)"
    "length (vertexNormals (fillFrameWithColour cm st)) =
               length (vertexNormals st) + 2 * unat (numrings st) * unat (numsegs st)"
    "length (vertexColors (fillFrameWithColour cm st)) =
               length (vertexColors st) + 2 * unat (numrings st) * unat (numsegs st)"
    using assms(2,3) 
    by (simp_all add: fillFrameWithColour_lists length_rings sint_small)
  have a: "map unat (indices (fillFrameWithColour cm st)) =
           map unat (indices st) @
           concat (map (\<lambda>k. concat (map (spec_segment_triangles
                                          (length (vertexPositions st) + 2 * unat (numsegs st) * k)
                                          (unat (numsegs st)))
                                     [0..<unat (numsegs st)]))
                       [0..<unat (numrings st)])"
    using fill_indices_unat[OF assms(3) assms(2), of cm] assms(7)
    by (simp only: assms(6))
  have b: "idx (fillFrameWithColour cm st) = idx st + 2 * numsegs st * numrings st"
    using assms(3) by (rule fill_idx)
  have c: "v < length (vertexPositions st) + 2 * unat (numsegs st) * (k + 1) \<and>
           length (vertexPositions st) + 2 * unat (numsegs st) * (k + 1)
             \<le> length (vertexPositions (fillFrameWithColour cm st))"
    if "k < unat (numrings st)" "j < unat (numsegs st)"
       "v \<in> set (spec_segment_triangles
                   (length (vertexPositions st) + 2 * unat (numsegs st) * k)
                   (unat (numsegs st)) j)" for k j v
  proof -
    have "v < length (vertexPositions st) + 2 * unat (numsegs st) * k + 2 * unat (numsegs st)"
      using that(2,3) by (rule spec_segment_triangles_bound)
    moreover have "Suc k \<le> unat (numrings st)" using that(1) by simp
    then have "unat (numsegs st) * Suc k \<le> unat (numsegs st) * unat (numrings st)"
      by (rule mult_le_mono2)
    ultimately show ?thesis
      by (simp add: cnt(1) algebra_simps)
  qed
  have pos: "0 < unat (numsegs st)" using assms(1) by simp
  have it: "(next_segment (numsegs st) ^^ m) 0 = int (m mod unat (numsegs st))" for m
    using pos assms(2) by (rule next_segment_iter)
  have d: "(next_segment (numsegs st) ^^ unat (numsegs st)) 0 = 0"
    by (simp only: it) simp
  have e: "(next_segment (numsegs st) ^^ m) 0 \<noteq> 0" if "0 < m \<and> m < unat (numsegs st)" for m
    using that by (simp only: it) simp
  show ?thesis
    using a b c d e by (simp only: cnt assms(4,5)) blast
qed

theorem fill_triangles_witness:
  "map unat (indices (fillFrameWithColour grey_ramp small_disc)) =
     [0, 2, 3, 0, 3, 1,  2, 4, 5, 2, 5, 3,  4, 0, 1, 4, 1, 5,
      6, 8, 9, 6, 9, 7,  8, 10, 11, 8, 11, 9,  10, 6, 7, 10, 7, 11] \<and>
   idx (fillFrameWithColour grey_ramp small_disc) = 12 \<and>
   length (vertexPositions (fillFrameWithColour grey_ramp small_disc)) = 12 \<and>
   length (vertexNormals (fillFrameWithColour grey_ramp small_disc)) = 12 \<and>
   length (vertexColors (fillFrameWithColour grey_ramp small_disc)) = 12 \<and>
   (next_segment 3 ^^ 3) 0 = 0"
proof -
  have f: "numsegs small_disc = 3" "numrings small_disc = 2" "idx small_disc = 0"
    "vertexPositions small_disc = []" "vertexNormals small_disc = []"
    "vertexColors small_disc = []" "indices small_disc = []"
    by (simp_all add: small_disc_def CyclicColourVisual_new_def)
  have u: "[0..<3] = [0, 1, 2]" "[0..<2] = [0, 1::nat]"
    by (simp_all add: upt_rec)
  have h: "3 \<le> unat (numsegs small_disc)" "unat (numsegs small_disc) \<le> 2 ^ 30"
    "unat (numrings small_disc) < 2 ^ 31"
    "length (vertexNormals small_disc) = length (vertexPositions small_disc)"
    "length (vertexColors small_disc) = length (vertexPositions small_disc)"
    "unat (idx small_disc) = length (vertexPositions small_disc)"
    "length (vertexPositions small_disc) +
       2 * unat (numrings small_disc) * unat (numsegs small_disc) \<le> 2 ^ 32"
    by (simp_all add: f)
  have n: "length (vertexPositions (fillFrameWithColour grey_ramp small_disc)) = 12"
    by (simp add: fillFrameWithColour_lists length_rings f)
  show ?thesis
    using fill_triangles[OF h, of grey_ramp] n
    by (simp add: f u spec_segment_triangles_def)
qed

text \<open>
  The claim as it stands, for every segment count from 3 on, fails: a segment count of
  \<open>2^31\<close> converts to a negative \<open>int\<close>, neither inner loop is entered, and the triangles of
  segment 0 (as of every other segment) are not emitted.
\<close>

theorem fill_triangles_counterexample:
  "3 \<le> unat (numsegs many_segments) \<and> 0 < unat (numrings many_segments) \<and>
   \<not> (take 6 (drop (length (indices many_segments))
                 (indices (fillFrameWithColour grey_ramp many_segments))) =
        [idx many_segments, idx many_segments + 2, idx many_segments + 3,
         idx many_segments, idx many_segments + 3, idx many_segments + 1])"
proof -
  have f: "numsegs many_segments = 2147483648" "numrings many_segments = 1"
    "indices many_segments = []"
    by (simp_all add: many_segments_def CyclicColourVisual_new_def)
  have "sint (numsegs many_segments) < 0" by (simp add: f)
  then have "ring_triangles b (numsegs many_segments) = []" for b
    by (simp add: ring_triangles_def)
  then have "indices (fillFrameWithColour grey_ramp many_segments) = []"
    by (simp add: fillFrameWithColour_lists(4) f)
  then show ?thesis by (simp add: f)
qed

subsection \<open>Colours and ring boundaries\<close>

lemma segment_colours_eq:
  "segment_colours cm st nri nro j =
     (cm (spec_colour_fraction (show_perception_sine st) (real_of_int j)
            (real (unat (numsegs st))) nri),
      cm (spec_colour_fraction (show_perception_sine st) (real_of_int j)
            (real (unat (numsegs st))) nro))"
  by (simp add: segment_colours_def spec_colour_fraction_def Let_def two_pi_def power2_eq_square)

lemma seg_blocks_fun:
  "seg_positions st a b =
     (\<lambda>j. [vadd (0, 0, z st) (circle_point st j a), vadd (0, 0, z st) (circle_point st j b)])"
  "seg_colours cm st c d =
     (\<lambda>j. [cm (spec_colour_fraction (show_perception_sine st) (real_of_int j)
                  (real (unat (numsegs st))) c),
           cm (spec_colour_fraction (show_perception_sine st) (real_of_int j)
                  (real (unat (numsegs st))) d)])"
  by (rule ext, simp add: seg_positions_def seg_colours_def segment_colours_eq)+

lemma ring_blocks_fun:
  "ring_positions st =
     (\<lambda>ring. concat (map (\<lambda>j.
         [vadd (0, 0, z st)
            (circle_point st j
               (inner_radius st + (outer_radius st - inner_radius st) / real (unat (numrings st))
                  * real_of_int (ring - 1))),
          vadd (0, 0, z st)
            (circle_point st j
               (inner_radius st + (outer_radius st - inner_radius st) / real (unat (numrings st))
                  * real_of_int ring))])
         [0..sint (numsegs st) - 1]))"
  "ring_colours cm st =
     (\<lambda>ring. concat (map (\<lambda>j.
         [cm (spec_colour_fraction (show_perception_sine st) (real_of_int j)
                (real (unat (numsegs st)))
                ((inner_radius st + (outer_radius st - inner_radius st) / real (unat (numrings st))
                    * real_of_int (ring - 1) - inner_radius st)
                 / (outer_radius st - inner_radius st))),
          cm (spec_colour_fraction (show_perception_sine st) (real_of_int j)
                (real (unat (numsegs st)))
                ((inner_radius st + (outer_radius st - inner_radius st) / real (unat (numrings st))
                    * real_of_int ring - inner_radius st)
                 / (outer_radius st - inner_radius st)))])
         [0..sint (numsegs st) - 1]))"
  unfolding ring_positions_def ring_colours_def Let_def seg_blocks_fun by (rule refl)+



text \<open>
  Claim C6. The positions appended by the fill pass are those of the rings
  \<open>ring_count, ring_count - 1, \<dots>, 1\<close> in this order, and the ring \<open>ring\<close> lies between the
  boundary radii \<open>inner_radius + ring_width \<times> (ring - 1)\<close> (inner vertices) and
  \<open>inner_radius + ring_width \<times> ring\<close> (outer vertices), with
  \<open>ring_width = (outer_radius - inner_radius) / ring_count\<close>: the boundaries are spaced
  linearly. For a ring count that an \<open>int\<close> holds, the first ring done is the outermost one:
  its outer boundary is \<open>outer_radius\<close>; the boundary with index 0 is \<open>inner_radius\<close>.
\<close>

theorem fill_positions:
  "vertexPositions (fillFrameWithColour cm st) =
     vertexPositions st @
     concat (map (\<lambda>ring.
       concat (map (\<lambda>j.
         [vadd (0, 0, z st)
            (circle_point st j
               (inner_radius st + (outer_radius st - inner_radius st) / real (unat (numrings st))
                  * real_of_int (ring - 1))),
          vadd (0, 0, z st)
            (circle_point st j
               (inner_radius st + (outer_radius st - inner_radius st) / real (unat (numrings st))
                  * real_of_int ring))])
         [0..sint (numsegs st) - 1]))
       (rev [1..sint (numrings st)])) \<and>
   (0 < unat (numrings st) \<and> unat (numrings st) < 2 ^ 31 \<longrightarrow>
      rev [1..sint (numrings st)] = sint (numrings st) # rev [1..sint (numrings st) - 1] \<and>
      inner_radius st + (outer_radius st - inner_radius st) / real (unat (numrings st))
         * real_of_int (sint (numrings st)) = outer_radius st \<and>
      inner_radius st + (outer_radius st - inner_radius st) / real (unat (numrings st))
         * real_of_int (1 - 1) = inner_radius st)"
proof -
  have "rev [1..sint (numrings st)] = sint (numrings st) # rev [1..sint (numrings st) - 1] \<and>
      inner_radius st + (outer_radius st - inner_radius st) / real (unat (numrings st))
         * real_of_int (sint (numrings st)) = outer_radius st \<and>
      inner_radius st + (outer_radius st - inner_radius st) / real (unat (numrings st))
         * real_of_int (1 - 1) = inner_radius st"
    if h: "0 < unat (numrings st)" "unat (numrings st) < 2 ^ 31"
  proof -
    have r: "sint (numrings st) = int (unat (numrings st))"
      using h(2) by (rule sint_small)
    have "0 < int (unat (numrings st))" using h(1) by (simp only: of_nat_0_less_iff)
    then have "1 \<le> sint (numrings st)" unfolding r by linarith
    then have "rev [1..sint (numrings st)] = sint (numrings st) # rev [1..sint (numrings st) - 1]"
      by (simp add: upto_rec2)
    moreover have "real (unat (numrings st)) \<noteq> 0"
      using h(1) by (simp only: of_nat_eq_0_iff)
    then have "(outer_radius st - inner_radius st) / real (unat (numrings st))
         * real_of_int (int (unat (numrings st))) = outer_radius st - inner_radius st"
      by simp
    ultimately show ?thesis unfolding r by simp
  qed
  then show ?thesis
    unfolding fillFrameWithColour_lists(1) ring_blocks_fun by blast
qed

theorem fill_positions_witness:
  "0 < unat (numrings small_disc) \<and> unat (numrings small_disc) < 2 ^ 31 \<and>
   rev [1..sint (numrings small_disc)] = [2, 1] \<and>
   inner_radius small_disc + (outer_radius small_disc - inner_radius small_disc) / 2 * 2 = 1 \<and>
   length (vertexPositions (fillFrameWithColour grey_ramp small_disc)) = 12"
proof -
  have f: "numsegs small_disc = 3" "numrings small_disc = 2" "vertexPositions small_disc = []"
    "outer_radius small_disc = 1" "inner_radius small_disc = 0.3"
    by (simp_all add: small_disc_def CyclicColourVisual_new_def)
  have u: "[0..2] = [0, 1, 2]" "rev [1..2] = [2, 1]"
    by (simp_all add: upto_rec1)
  show ?thesis
    using fill_positions[of grey_ramp small_disc]
    by (simp add: f u)
qed

section \<open>The label pass\<close>

subsection \<open>The two loops in closed form\<close>

lemma set_label_angle_eq:
  assumes "labels st \<noteq> []" and "unat i < length (label_angles st)"
  shows "set_label_angle i st =
           Inr (st\<lparr>label_angles :=
                  (label_angles st)[unat i := angle_value (length (labels st)) (unat i)]\<rparr>)"
  using assms
  by (simp add: set_label_angle_def fdiv_def assign_angle_def read_angle_def angle_value_def
        Let_def)

lemma anglesLoop_eq:
  assumes "length (labels st) < 2 ^ 32" and "length (label_angles st) = length (labels st)"
    and "k \<le> length (labels st)"
  shows "anglesLoop (word_of_nat k) st =
           Some (Inr (st\<lparr>label_angles := take k (label_angles st) @
                         map (angle_value (length (labels st))) [k..<length (labels st)]\<rparr>))"
  using assms
proof (induction "length (labels st) - k" arbitrary: k st)
  case 0
  then have k: "k = length (labels st)" by simp
  have u: "unat (word_of_nat k :: 32 word) = k"
    using 0 k by (intro unat_of_nat32) simp
  have nlt: "\<not> k < length (labels st)" using k by simp
  have lhs: "anglesLoop (word_of_nat k) st = Some (Inr st)"
    by (subst anglesLoop.simps) (simp only: u nlt if_False)
  have rhs: "st\<lparr>label_angles := take k (label_angles st) @
                         map (angle_value (length (labels st))) [k..<length (labels st)]\<rparr> = st"
    using k "0.prems"(2) by simp
  show ?case by (simp only: lhs rhs)
next
  case (Suc d)
  then have lt: "k < length (labels st)" by simp
  have u: "unat (word_of_nat k :: 32 word) = k"
    using Suc.prems lt by (intro unat_of_nat32) simp
  have ne: "labels st \<noteq> []" using lt by auto
  define st1 where "st1 = st\<lparr>label_angles :=
      (label_angles st)[k := angle_value (length (labels st)) k]\<rparr>"
  have s: "set_label_angle (word_of_nat k) st = Inr st1"
    using set_label_angle_eq[OF ne, of "word_of_nat k"] lt Suc.prems(2)
    by (simp only: u st1_def)
  have l1: "labels st1 = labels st" "length (label_angles st1) = length (labels st)"
    using Suc.prems(2) by (simp_all add: st1_def)
  have ih: "anglesLoop (word_of_nat (Suc k)) st1 =
      Some (Inr (st1\<lparr>label_angles := take (Suc k) (label_angles st1) @
                         map (angle_value (length (labels st1))) [Suc k..<length (labels st1)]\<rparr>))"
    using Suc.hyps(2) Suc.prems lt by (intro Suc.hyps(1)) (simp_all add: l1)
  have w: "(word_of_nat k :: 32 word) + 1 = word_of_nat (Suc k)" by simp
  have tk: "take (Suc k) (label_angles st1) = take k (label_angles st) @
      [angle_value (length (labels st)) k]"
    using lt Suc.prems(2) by (simp add: st1_def take_Suc_conv_app_nth)
  have up: "[k..<length (labels st)] = k # [Suc k..<length (labels st)]"
    using lt by (rule upt_conv_Cons)
  show ?case
    apply (subst anglesLoop.simps)
    apply (simp only: u lt if_True s sum.case w ih tk l1 up)
    apply (simp add: st1_def)
    done
qed

lemma place_label_eq:
  assumes "unat i < length (labels st)" and "unat i < length (label_angles st)"
  shows "place_label tg i st =
           Inr (st\<lparr>ticklabelheight :=
                   upd_max (ticklabelheight st) (height (tg (tf st) (labels st ! unat i))),
                 ticklabelwidth :=
                   upd_max (ticklabelwidth st) (width (tg (tf st) (labels st ! unat i))),
                 texts := texts st @ [placed_text tg st (unat i)]\<rparr>)"
  using assms
  by (simp add: place_label_def read_angle_def Let_def upd_max_def placed_text_def lblpos_def
        lbl_r_def)

lemma placed_text_cong:
  "placed_text tg (st\<lparr>ticklabelheight := h, ticklabelwidth := w, texts := t\<rparr>) =
   placed_text tg st"
  by (rule ext) (simp add: placed_text_def lblpos_def lbl_r_def)

lemma placeLoop_eq:
  assumes "length (label_angles st) < 2 ^ 32"
    and "length (label_angles st) \<le> length (labels st)"
    and "k \<le> length (label_angles st)"
  shows "placeLoop tg (word_of_nat k) st =
           Some (Inr (st\<lparr>ticklabelheight :=
                         foldl upd_max (ticklabelheight st)
                           (map (\<lambda>i. height (tg (tf st) (labels st ! i)))
                              [k..<length (label_angles st)]),
                       ticklabelwidth :=
                         foldl upd_max (ticklabelwidth st)
                           (map (\<lambda>i. width (tg (tf st) (labels st ! i)))
                              [k..<length (label_angles st)]),
                       texts := texts st @
                         map (placed_text tg st) [k..<length (label_angles st)]\<rparr>))"
  using assms
proof (induction "length (label_angles st) - k" arbitrary: k st)
  case 0
  then have k: "k = length (label_angles st)" by simp
  have u: "unat (word_of_nat k :: 32 word) = k"
    using 0 k by (intro unat_of_nat32) simp
  have nlt: "\<not> k < length (label_angles st)" using k by simp
  have lhs: "placeLoop tg (word_of_nat k) st = Some (Inr st)"
    by (subst placeLoop.simps) (simp only: u nlt if_False)
  show ?case unfolding lhs using k by simp
next
  case (Suc d)
  then have lt: "k < length (label_angles st)" by simp
  then have lt2: "k < length (labels st)" using Suc.prems(2) by simp
  have u: "unat (word_of_nat k :: 32 word) = k"
    using Suc.prems lt by (intro unat_of_nat32) simp
  define st1 where "st1 = st\<lparr>ticklabelheight :=
                   upd_max (ticklabelheight st) (height (tg (tf st) (labels st ! k))),
                 ticklabelwidth :=
                   upd_max (ticklabelwidth st) (width (tg (tf st) (labels st ! k))),
                 texts := texts st @ [placed_text tg st k]\<rparr>"
  have s: "place_label tg (word_of_nat k) st = Inr st1"
    using place_label_eq[of "word_of_nat k" st tg] lt lt2
    by (simp only: u st1_def)
  have l1: "labels st1 = labels st" "label_angles st1 = label_angles st" "tf st1 = tf st"
    "placed_text tg st1 = placed_text tg st"
    by (simp_all add: st1_def placed_text_cong)
  have ih: "placeLoop tg (word_of_nat (Suc k)) st1 =
           Some (Inr (st1\<lparr>ticklabelheight :=
                         foldl upd_max (ticklabelheight st1)
                           (map (\<lambda>i. height (tg (tf st1) (labels st1 ! i)))
                              [Suc k..<length (label_angles st1)]),
                       ticklabelwidth :=
                         foldl upd_max (ticklabelwidth st1)
                           (map (\<lambda>i. width (tg (tf st1) (labels st1 ! i)))
                              [Suc k..<length (label_angles st1)]),
                       texts := texts st1 @
                         map (placed_text tg st1) [Suc k..<length (label_angles st1)]\<rparr>))"
    using Suc.hyps(2) Suc.prems lt by (intro Suc.hyps(1)) (simp_all add: l1)
  have w: "(word_of_nat k :: 32 word) + 1 = word_of_nat (Suc k)" by simp
  have up: "[k..<length (label_angles st)] = k # [Suc k..<length (label_angles st)]"
    using lt by (rule upt_conv_Cons)
  show ?case
    apply (subst placeLoop.simps)
    apply (simp only: u lt if_True s sum.case w ih l1 up)
    apply (simp add: st1_def)
    done
qed

lemma drawTickLabels_eq:
  assumes "length (labels st) < 2 ^ 32" and "length (label_angles st) \<le> length (labels st)"
  shows "drawTickLabels tg st =
           Some (Inr (st\<lparr>ticklabelheight :=
                         foldl upd_max 0
                           (map (\<lambda>i. height (tg (tf st) (labels st ! i)))
                              [0..<length (final_angles st)]),
                       ticklabelwidth :=
                         foldl upd_max 0
                           (map (\<lambda>i. width (tg (tf st) (labels st ! i)))
                              [0..<length (final_angles st)]),
                       label_angles := final_angles st,
                       texts := texts st @
                         map (placed_text tg (st\<lparr>label_angles := final_angles st\<rparr>))
                           [0..<length (final_angles st)]\<rparr>))"
proof -
  define st3 where
    "st3 = st\<lparr>ticklabelheight := 0, ticklabelwidth := 0, label_angles := final_angles st\<rparr>"
  have len: "length (final_angles st) \<le> length (labels st)"
    using assms(2) by (simp add: final_angles_def)
  have filled: "(if label_angles (st\<lparr>ticklabelheight := 0, ticklabelwidth := 0\<rparr>) = []
         then anglesLoop 0 (st\<lparr>ticklabelheight := 0, ticklabelwidth := 0,
                label_angles := resize (length (labels st)) (label_angles st)\<rparr>)
         else Some (Inr (st\<lparr>ticklabelheight := 0, ticklabelwidth := 0\<rparr>))) = Some (Inr st3)"
  proof (cases "label_angles st = []")
    case True
    define st0 where "st0 = st\<lparr>ticklabelheight := 0, ticklabelwidth := 0,
                label_angles := resize (length (labels st)) (label_angles st)\<rparr>"
    have p: "length (labels st0) < 2 ^ 32" "length (label_angles st0) = length (labels st0)"
      "0 \<le> length (labels st0)"
      using assms(1) True by (simp_all add: st0_def resize_def)
    have "anglesLoop (word_of_nat 0) st0 = Some (Inr st3)"
      unfolding anglesLoop_eq[OF p]
      using True by (simp add: st0_def st3_def final_angles_def)
    then show ?thesis using True by (simp add: st0_def)
  next
    case False
    then show ?thesis by (simp add: st3_def final_angles_def)
  qed
  have q: "length (label_angles st3) < 2 ^ 32" "length (label_angles st3) \<le> length (labels st3)"
    "0 \<le> length (label_angles st3)"
    using assms(1) len by (simp_all add: st3_def)
  have c: "placed_text tg st3 = placed_text tg (st\<lparr>label_angles := final_angles st\<rparr>)"
    by (rule ext) (simp add: st3_def placed_text_def lblpos_def lbl_r_def)
  have "placeLoop tg (word_of_nat 0) st3 = Some (Inr (st\<lparr>ticklabelheight :=
                         foldl upd_max 0
                           (map (\<lambda>i. height (tg (tf st) (labels st ! i)))
                              [0..<length (final_angles st)]),
                       ticklabelwidth :=
                         foldl upd_max 0
                           (map (\<lambda>i. width (tg (tf st) (labels st ! i)))
                              [0..<length (final_angles st)]),
                       label_angles := final_angles st,
                       texts := texts st @
                         map (placed_text tg (st\<lparr>label_angles := final_angles st\<rparr>))
                           [0..<length (final_angles st)]\<rparr>))"
    unfolding placeLoop_eq[OF q] c by (simp add: st3_def)
  moreover have "drawTickLabels tg st =
      (case (if label_angles (st\<lparr>ticklabelheight := 0, ticklabelwidth := 0\<rparr>) = []
         then anglesLoop 0 (st\<lparr>ticklabelheight := 0, ticklabelwidth := 0,
                label_angles := resize (length (labels st)) (label_angles st)\<rparr>)
         else Some (Inr (st\<lparr>ticklabelheight := 0, ticklabelwidth := 0\<rparr>))) of
         None \<Rightarrow> None
       | Some (Inl e) \<Rightarrow> Some (Inl e)
       | Some (Inr st3) \<Rightarrow> placeLoop tg 0 st3)"
    by (simp add: drawTickLabels_def Let_def)
  ultimately show ?thesis
    by (simp only: filled option.case sum.case semiring_1_class.of_nat_0)
qed

subsection \<open>Generated angles\<close>

lemma angle_value_four:
  "angle_value 4 0 = pi / 2" "angle_value 4 (Suc 0) = pi" "angle_value 4 2 = 3 * pi / 2"
  "angle_value 4 3 = 2 * pi"
proof -
  have p: "0 < pi" by simp
  show "angle_value 4 0 = pi / 2"
    using p by (simp add: angle_value_def pi_over_2_def two_pi_def Let_def)
  show "angle_value 4 (Suc 0) = pi"
    using p by (simp add: angle_value_def pi_over_2_def two_pi_def Let_def)
  show "angle_value 4 2 = 3 * pi / 2"
    using p by (simp add: angle_value_def pi_over_2_def two_pi_def Let_def)
  show "angle_value 4 3 = 2 * pi"
    using p by (simp add: angle_value_def pi_over_2_def two_pi_def Let_def)
qed

text \<open>
  Claim C3, at the default four labels with no angles given. The label pass ends normally and
  leaves the angles \<open>\<pi>/2, \<pi>, 3\<pi>/2, 2\<pi>\<close>: the sum \<open>\<pi>/2 + 3 \<times> (2\<pi>/4)\<close> is \<open>2\<pi>\<close>, which does
  not exceed \<open>2\<pi>\<close> and is therefore not rescaled. The last angle is \<open>2\<pi>\<close> and not 0, so it is
  not in the half-open interval from 0 to \<open>2\<pi>\<close> that the claim (and the comment in the
  source, "example order for 4: \<open>pi_over_2, pi, three_pi_over_2, 0.0f\<close>") names.
\<close>

theorem four_labels_last_angle:
  "map_option (map_sum id label_angles) (drawTickLabels tg (CyclicColourVisual_new offset)) =
     Some (Inr [pi / 2, pi, 3 * pi / 2, 2 * pi]) \<and>
   2 * pi \<noteq> 0 \<and> \<not> 2 * pi < 2 * pi"
proof -
  have f: "length (labels (CyclicColourVisual_new offset)) = 4"
    "label_angles (CyclicColourVisual_new offset) = []"
    by (simp_all add: CyclicColourVisual_new_def)
  have h: "length (labels (CyclicColourVisual_new offset)) < 2 ^ 32"
    "length (label_angles (CyclicColourVisual_new offset))
       \<le> length (labels (CyclicColourVisual_new offset))"
    by (simp_all add: f)
  have u: "[0..<4] = [0, 1, 2, 3::nat]" by (simp add: upt_rec)
  have a: "final_angles (CyclicColourVisual_new offset) = [pi / 2, pi, 3 * pi / 2, 2 * pi]"
    by (simp add: final_angles_def f u angle_value_four)
  show ?thesis
    unfolding drawTickLabels_eq[OF h] by (simp add: a)
qed

subsection \<open>No labels\<close>

text \<open>
  Claim C10. With an empty label list and an empty angle list the label pass ends normally:
  the result is the object with the two maxima reset to zero and nothing else changed, so
  there are no label angles and no new text objects. The division \<open>2\<pi>/N\<close> sits in the body
  of the first loop only; run on this object the body would divide by zero (second conjunct),
  and the normal result says that it was not run.
\<close>

theorem no_labels_no_division:
  assumes "labels st = []" and "label_angles st = []"
  shows "drawTickLabels tg st = Some (Inr (st\<lparr>ticklabelheight := 0, ticklabelwidth := 0\<rparr>)) \<and>
         set_label_angle i st = Inl DivisionByZero"
proof -
  have h: "length (labels st) < 2 ^ 32" "length (label_angles st) \<le> length (labels st)"
    using assms by simp_all
  have a: "final_angles st = []" using assms by (simp add: final_angles_def)
  have "drawTickLabels tg st = Some (Inr (st\<lparr>ticklabelheight := 0, ticklabelwidth := 0\<rparr>))"
    unfolding drawTickLabels_eq[OF h] using assms(2) by (simp add: a)
  moreover have "set_label_angle i st = Inl DivisionByZero"
    using assms(1) by (simp add: set_label_angle_def fdiv_def)
  ultimately show ?thesis by simp
qed

theorem no_labels_no_division_witness:
  "labels no_labels = [] \<and> label_angles no_labels = [] \<and>
   map_option (map_sum id (\<lambda>st. (label_angles st, texts st, ticklabelwidth st, ticklabelheight st)))
     (drawTickLabels fixed_pitch no_labels) = Some (Inr ([], [], 0, 0))"
proof -
  have h: "labels no_labels = []" "label_angles no_labels = []"
    by (simp_all add: no_labels_def CyclicColourVisual_new_def)
  show ?thesis
    using no_labels_no_division[OF h, of fixed_pitch] h
    by (simp add: no_labels_def CyclicColourVisual_new_def)
qed

subsection \<open>Placement of a label\<close>

text \<open>
  Claim C4, as amended. Let there be fewer than \<open>2^32\<close> labels and no more angles than
  labels. Then the label pass ends normally, with one text object appended per angle, and
  for every placed label with angle \<open>a\<close> and measured half-width \<open>hw\<close> and half-height
  \<open>hh\<close>: the clearance is \<open>|cos a \<times> hw| + |sin a \<times> hh|\<close>, the placement radius is
  \<open>outer_radius + framelinewidth + ticklabelgap + clearance\<close>, the anchor is
  \<open>(radius \<times> cos a - hw, radius \<times> sin a - hh, z)\<close>, the text object is set up with the label's
  string at the anchor moved by the model offset, and the placement radius is at least
  \<open>outer_radius + framelinewidth + ticklabelgap\<close>.
\<close>

theorem label_placement:
  assumes "length (labels st) < 2 ^ 32" and "length (label_angles st) \<le> length (labels st)"
  shows "case drawTickLabels tg st of
           Some (Inr st') \<Rightarrow>
             length (label_angles st') =
               (if label_angles st = [] then length (labels st) else length (label_angles st)) \<and>
             length (texts st') = length (texts st) + length (label_angles st') \<and>
             (\<forall>i < length (label_angles st').
                let a = label_angles st' ! i;
                    geom = tg (tf st) (labels st ! i);
                    clearance = \<bar>cos a * half_width geom\<bar> + \<bar>sin a * half_height geom\<bar>;
                    radius = outer_radius st + framelinewidth st + ticklabelgap st + clearance
                in geom_gap a geom = clearance \<and>
                   lbl_r st a geom = radius \<and>
                   lblpos st a geom =
                     (radius * cos a - half_width geom, radius * sin a - half_height geom, z st) \<and>
                   texts st' ! (length (texts st) + i) =
                     \<lparr>text_string = labels st ! i,
                      text_position = vadd (lblpos st a geom) (mv_offset st),
                      text_colour = colour (tf st)\<rparr> \<and>
                   outer_radius st + framelinewidth st + ticklabelgap st \<le> radius)
         | _ \<Rightarrow> False"
proof -
  have len: "length (final_angles st) =
      (if label_angles st = [] then length (labels st) else length (label_angles st))"
    by (simp add: final_angles_def)
  have c: "lblpos (st\<lparr>label_angles := xs\<rparr>) = lblpos st" for xs
    by (intro ext) (simp add: lblpos_def lbl_r_def)
  show ?thesis
    unfolding drawTickLabels_eq[OF assms]
    by (simp add: len Let_def nth_append placed_text_def c geom_gap_def lbl_r_def lblpos_def)
qed

theorem label_placement_witness:
  "length (labels (CyclicColourVisual_new (0, 0, 0))) < 2 ^ 32 \<and>
   length (label_angles (CyclicColourVisual_new (0, 0, 0)))
     \<le> length (labels (CyclicColourVisual_new (0, 0, 0))) \<and>
   (case drawTickLabels fixed_pitch (CyclicColourVisual_new (0, 0, 0)) of
      Some (Inr st') \<Rightarrow>
        length (texts st') = 4 \<and>
        106 / 100 \<le> lbl_r (CyclicColourVisual_new (0, 0, 0)) (label_angles st' ! 0)
                       (fixed_pitch (tf (CyclicColourVisual_new (0, 0, 0)))
                          (labels (CyclicColourVisual_new (0, 0, 0)) ! 0))
    | _ \<Rightarrow> False)"
proof -
  have h: "length (labels (CyclicColourVisual_new (0, 0, 0))) < 2 ^ 32"
    "length (label_angles (CyclicColourVisual_new (0, 0, 0)))
       \<le> length (labels (CyclicColourVisual_new (0, 0, 0)))"
    by (simp_all add: CyclicColourVisual_new_def)
  have f: "label_angles (CyclicColourVisual_new (0, 0, 0)) = []"
    "length (labels (CyclicColourVisual_new (0, 0, 0))) = 4"
    "texts (CyclicColourVisual_new (0, 0, 0)) = []"
    "outer_radius (CyclicColourVisual_new (0, 0, 0)) = 1"
    "framelinewidth (CyclicColourVisual_new (0, 0, 0)) = 1 / 100"
    "ticklabelgap (CyclicColourVisual_new (0, 0, 0)) = 5 / 100"
    by (simp_all add: CyclicColourVisual_new_def)
  show ?thesis
    using label_placement[OF h, of fixed_pitch] h
    by (auto simp add: f Let_def split: option.splits sum.splits)
qed

text \<open>
  The claim as it stands says that the placement radius exceeds
  \<open>outer_radius + framelinewidth + ticklabelgap\<close> for every label. For a label without extent
  (the empty string, measured with half-width and half-height zero) the clearance is zero and
  the radius is equal to that sum: the label is anchored at distance 1.06 on the default
  object.
\<close>

theorem label_placement_counterexample:
  "drawTickLabels fixed_pitch blank_label =
     Some (Inr (blank_label\<lparr>texts :=
        [\<lparr>text_string = '''', text_position = (106 / 100, 0, 0), text_colour = (0, 0, 0)\<rparr>]\<rparr>)) \<and>
   \<not> (outer_radius blank_label + framelinewidth blank_label + ticklabelgap blank_label
        < lbl_r blank_label 0 (fixed_pitch (tf blank_label) ''''))"
proof -
  have h: "length (labels blank_label) < 2 ^ 32"
    "length (label_angles blank_label) \<le> length (labels blank_label)"
    by (simp_all add: blank_label_def CyclicColourVisual_new_def)
  have a: "final_angles blank_label = [0]"
    by (simp add: final_angles_def blank_label_def CyclicColourVisual_new_def)
  have "drawTickLabels fixed_pitch blank_label =
     Some (Inr (blank_label\<lparr>texts :=
        [\<lparr>text_string = '''', text_position = (106 / 100, 0, 0), text_colour = (0, 0, 0)\<rparr>]\<rparr>))"
    unfolding drawTickLabels_eq[OF h] a
    by (simp add: blank_label_def CyclicColourVisual_new_def placed_text_def lblpos_def
          lbl_r_def geom_gap_def fixed_pitch_def upd_max_def)
  moreover have "\<not> (outer_radius blank_label + framelinewidth blank_label +
        ticklabelgap blank_label < lbl_r blank_label 0 (fixed_pitch (tf blank_label) ''''))"
    by (simp add: lbl_r_def geom_gap_def fixed_pitch_def)
  ultimately show ?thesis by simp
qed

section \<open>initializeVertices\<close>

lemma fill_keeps:
  "ticklabelgap (fillFrameWithColour cm st) = ticklabelgap st"
  "texts (fillFrameWithColour cm st) = texts st"
  by (cases "0 \<le> sint (numrings st)";
      simp add: fillFrameWithColour_def ringLoop_eq ringLoop_nonpos)+

lemma drawFrame_keeps:
  "ticklabelgap (drawFrame cfcl st) = ticklabelgap st"
  "texts (drawFrame cfcl st) = texts st"
  "draw_ticks (drawFrame cfcl st) = draw_ticks st"
  by (simp_all add: drawFrame_def on_mesh_def Let_def)

lemma set_label_angle_keeps:
  "set_label_angle i st = Inr st1 \<Longrightarrow> ticklabelgap st1 = ticklabelgap st"
  by (auto simp: set_label_angle_def assign_angle_def read_angle_def fdiv_def
        split: sum.splits if_splits)

lemma place_label_keeps:
  "place_label tg i st = Inr st1 \<Longrightarrow> ticklabelgap st1 = ticklabelgap st"
  by (auto simp: place_label_def read_angle_def Let_def split: sum.splits if_splits)

lemma anglesLoop_keeps:
  assumes "anglesLoop i st = Some (Inr st')"
  shows "ticklabelgap st' = ticklabelgap st"
proof -
  have "\<forall>st'. r = Inr st' \<longrightarrow> ticklabelgap st' = ticklabelgap st"
    if "anglesLoop i st = Some r" for r
  proof (rule anglesLoop.raw_induct[where
        P = "\<lambda>i st r. \<forall>st'. r = Inr st' \<longrightarrow> ticklabelgap st' = ticklabelgap st", OF _ that])
    fix f i st r
    assume ih: "\<And>i st y. f i st = Some y \<Longrightarrow>
                  \<forall>st'. y = Inr st' \<longrightarrow> ticklabelgap st' = ticklabelgap st"
      and body: "(if unat i < length (labels st)
                  then case set_label_angle i st of Inl e \<Rightarrow> Some (Inl e)
                       | Inr st1 \<Rightarrow> f (i + 1) st1
                  else Some (Inr st)) = Some r"
    show "\<forall>st'. r = Inr st' \<longrightarrow> ticklabelgap st' = ticklabelgap st"
    proof (cases "unat i < length (labels st)")
      case True
      show ?thesis
      proof (cases "set_label_angle i st")
        case (Inl e)
        with body True show ?thesis by auto
      next
        case (Inr st1)
        with body True have "f (i + 1) st1 = Some r" by simp
        from ih[OF this] set_label_angle_keeps[OF Inr] show ?thesis by simp
      qed
    next
      case False
      with body show ?thesis by auto
    qed
  qed
  from this[OF assms] show ?thesis by simp
qed

lemma placeLoop_keeps:
  assumes "placeLoop tg i st = Some (Inr st')"
  shows "ticklabelgap st' = ticklabelgap st"
proof -
  have "\<forall>st'. r = Inr st' \<longrightarrow> ticklabelgap st' = ticklabelgap st"
    if "placeLoop tg i st = Some r" for r
  proof (rule placeLoop.raw_induct[where
        P = "\<lambda>tg i st r. \<forall>st'. r = Inr st' \<longrightarrow> ticklabelgap st' = ticklabelgap st",
        OF _ that])
    fix f tg i st r
    assume ih: "\<And>tg i st y. f tg i st = Some y \<Longrightarrow>
                  \<forall>st'. y = Inr st' \<longrightarrow> ticklabelgap st' = ticklabelgap st"
      and body: "(if unat i < length (label_angles st)
                  then case place_label tg i st of Inl e \<Rightarrow> Some (Inl e)
                       | Inr st1 \<Rightarrow> f tg (i + 1) st1
                  else Some (Inr st)) = Some r"
    show "\<forall>st'. r = Inr st' \<longrightarrow> ticklabelgap st' = ticklabelgap st"
    proof (cases "unat i < length (label_angles st)")
      case True
      show ?thesis
      proof (cases "place_label tg i st")
        case (Inl e)
        with body True show ?thesis by auto
      next
        case (Inr st1)
        with body True have "f tg (i + 1) st1 = Some r" by simp
        from ih[OF this] place_label_keeps[OF Inr] show ?thesis by simp
      qed
    next
      case False
      with body show ?thesis by auto
    qed
  qed
  from this[OF assms] show ?thesis by simp
qed

lemma drawTickLabels_keeps:
  assumes "drawTickLabels tg st = Some (Inr st')"
  shows "ticklabelgap st' = ticklabelgap st"
proof -
  from assms obtain st3 where
    a: "(if label_angles st = [] then anglesLoop 0
          (st\<lparr>ticklabelheight := 0, ticklabelwidth := 0,
             label_angles := resize (length (labels st)) (label_angles st)\<rparr>)
        else Some (Inr (st\<lparr>ticklabelheight := 0, ticklabelwidth := 0\<rparr>))) = Some (Inr st3)"
    and b: "placeLoop tg 0 st3 = Some (Inr st')"
    by (auto simp: drawTickLabels_def Let_def split: option.splits sum.splits if_splits)
  have "ticklabelgap st3 = ticklabelgap st"
  proof (cases "label_angles st = []")
    case True
    with a have "anglesLoop 0
          (st\<lparr>ticklabelheight := 0, ticklabelwidth := 0,
             label_angles := resize (length (labels st)) (label_angles st)\<rparr>) = Some (Inr st3)"
      by simp
    from anglesLoop_keeps[OF this] show ?thesis by simp
  next
    case False
    with a show ?thesis by auto
  qed
  then show ?thesis using placeLoop_keeps[OF b] by simp
qed

text \<open>
  Claim C9, as amended. \<open>initializeVertices\<close> first measures the glyph \<open>m\<close> and sets the
  tick-label gap to half its width, in every case; then it draws the frame if and only if
  \<open>draw_frame\<close> is set; then it places the tick labels if and only if \<open>draw_ticks\<close> is set;
  and, unless the label pass fails, it finally fills the disc. Whenever it ends normally the
  gap of the result is half the measured width, and with \<open>draw_ticks\<close> unset no text object
  is added.
\<close>

theorem initialize_order:
  "initializeVertices tg cfcl cm st =
     (case (if draw_ticks st
            then drawTickLabels tg
                   (if draw_frame st
                    then drawFrame cfcl (st\<lparr>ticklabelgap := width (tg (tf st) ''m'') / 2\<rparr>)
                    else st\<lparr>ticklabelgap := width (tg (tf st) ''m'') / 2\<rparr>)
            else Some (Inr (if draw_frame st
                            then drawFrame cfcl (st\<lparr>ticklabelgap := width (tg (tf st) ''m'') / 2\<rparr>)
                            else st\<lparr>ticklabelgap := width (tg (tf st) ''m'') / 2\<rparr>))) of
        None \<Rightarrow> None
      | Some (Inl e) \<Rightarrow> Some (Inl e)
      | Some (Inr st3) \<Rightarrow> Some (Inr (fillFrameWithColour cm st3))) \<and>
   (\<forall>st'. initializeVertices tg cfcl cm st = Some (Inr st') \<longrightarrow>
      ticklabelgap st' = width (tg (tf st) ''m'') / 2 \<and>
      (\<not> draw_ticks st \<longrightarrow> texts st' = texts st))"
proof -
  define st1 where "st1 = st\<lparr>ticklabelgap := width (tg (tf st) ''m'') / 2\<rparr>"
  define st2 where "st2 = (if draw_frame st then drawFrame cfcl st1 else st1)"
  have g2: "ticklabelgap st2 = width (tg (tf st) ''m'') / 2" "texts st2 = texts st"
    "draw_ticks st2 = draw_ticks st"
    by (simp_all add: st2_def st1_def drawFrame_keeps)
  have eq: "initializeVertices tg cfcl cm st =
     (case (if draw_ticks st then drawTickLabels tg st2 else Some (Inr st2)) of
        None \<Rightarrow> None
      | Some (Inl e) \<Rightarrow> Some (Inl e)
      | Some (Inr st3) \<Rightarrow> Some (Inr (fillFrameWithColour cm st3)))"
    unfolding initializeVertices_def Let_def st2_def st1_def
    by (simp add: drawFrame_keeps)
  have "ticklabelgap st' = width (tg (tf st) ''m'') / 2 \<and>
      (\<not> draw_ticks st \<longrightarrow> texts st' = texts st)"
    if r: "initializeVertices tg cfcl cm st = Some (Inr st')" for st'
  proof (cases "draw_ticks st")
    case True
    with r eq obtain st3 where d: "drawTickLabels tg st2 = Some (Inr st3)"
      and f: "st' = fillFrameWithColour cm st3"
      by (auto split: option.splits sum.splits)
    show ?thesis
      using True drawTickLabels_keeps[OF d] by (simp add: f fill_keeps g2)
  next
    case False
    with r eq have "st' = fillFrameWithColour cm st2" by simp
    then show ?thesis using False by (simp add: fill_keeps g2)
  qed
  then show ?thesis
    using eq unfolding st2_def st1_def by blast
qed

theorem initialize_order_witness:
  "map_option (map_sum id (\<lambda>s. (ticklabelgap s, text_position (texts s ! 0),
                                 length (texts s), length (vertexPositions s))))
     (initializeVertices fixed_pitch centre_ribbon grey_ramp small_disc) =
   Some (Inr (3 / 80, (- (3 / 20), 419 / 400, 0), 4, 12))"
proof -
  define st1 where "st1 = small_disc\<lparr>ticklabelgap := 3 / 80\<rparr>"
  have w: "width (fixed_pitch (tf small_disc) ''m'') / 2 = 3 / 80"
    by (simp add: fixed_pitch_def small_disc_def CyclicColourVisual_new_def)
  have fl: "draw_ticks small_disc" "\<not> draw_frame small_disc"
    by (simp_all add: small_disc_def CyclicColourVisual_new_def)
  have h: "length (labels st1) < 2 ^ 32" "length (label_angles st1) \<le> length (labels st1)"
    by (simp_all add: st1_def small_disc_def CyclicColourVisual_new_def)
  have l: "length (labels st1) = 4" "label_angles st1 = []"
    by (simp_all add: st1_def small_disc_def CyclicColourVisual_new_def)
  have u: "[0..<4] = [0, 1, 2, 3::nat]" by (simp add: upt_rec)
  have a: "final_angles st1 = [pi / 2, pi, 3 * pi / 2, 2 * pi]"
    by (simp add: final_angles_def l u angle_value_four)
  obtain st3 where d: "drawTickLabels fixed_pitch st1 = Some (Inr st3)"
    and t: "length (texts st3) = 4" "text_position (texts st3 ! 0) = (- (3 / 20), 419 / 400, 0)"
      "numrings st3 = 2" "numsegs st3 = 3" "vertexPositions st3 = []"
    unfolding drawTickLabels_eq[OF h] a
    by (simp add: st1_def small_disc_def CyclicColourVisual_new_def placed_text_def
          lblpos_def lbl_r_def geom_gap_def fixed_pitch_def utf8_pi_def)
  have i: "initializeVertices fixed_pitch centre_ribbon grey_ramp small_disc =
      Some (Inr (fillFrameWithColour grey_ramp st3))"
  proof -
    have s1: "small_disc\<lparr>ticklabelgap := width (fixed_pitch (tf small_disc) ''m'') / 2\<rparr> = st1"
      by (simp add: st1_def w)
    show ?thesis
      using initialize_order[of fixed_pitch centre_ribbon grey_ramp small_disc]
      by (simp only: fl if_True if_False s1 d option.case sum.case)
  qed
  have n: "length (vertexPositions (fillFrameWithColour grey_ramp st3)) = 12"
    by (simp add: fillFrameWithColour_lists length_rings t)
  have g: "ticklabelgap (fillFrameWithColour grey_ramp st3) = 3 / 80"
    using initialize_order[of fixed_pitch centre_ribbon grey_ramp small_disc,
        THEN conjunct2, rule_format, OF i]
    by (simp only: w)
  show ?thesis
    by (simp only: i) (simp add: g n t fill_keeps(2))
qed

text \<open>
  The claim as it stands exempts the client that needs no labels from the measurement. The
  code has no such exemption: with \<open>draw_ticks\<close> unset and no labels at all the gap is still
  replaced, here the default 0.05 by half the width 0.075 of the glyph.
\<close>

theorem initialize_order_counterexample:
  "\<not> draw_ticks no_ticks \<and> labels no_ticks = [] \<and> ticklabelgap no_ticks = 5 / 100 \<and>
   map_option (map_sum id ticklabelgap)
     (initializeVertices fixed_pitch centre_ribbon grey_ramp no_ticks) = Some (Inr (3 / 80))"
  by (simp add: initializeVertices_def Let_def no_ticks_def CyclicColourVisual_new_def
        fill_keeps fixed_pitch_def)

section \<open>The colour converter\<close>

text \<open>
  Claim C7. For a cyclic colour map \<open>convert (x + 1) = convert x\<close> for every \<open>x\<close>. The fill pass
  hands the sum of the fraction \<open>j/segment_count\<close> and the perturbation to \<open>convert\<close> as it is:
  with a cyclic map the two colours of a segment are the family's colours at the fractional
  parts of the two sums.
\<close>

theorem cyclic_convert:
  assumes "cm_cyclic cmap"
  shows "convert cmap (x + 1) = convert cmap x \<and>
         segment_colours (convert cmap) st nri nro j =
           (cm_colour cmap (frac (spec_colour_fraction (show_perception_sine st)
                                    (real_of_int j) (real (unat (numsegs st))) nri)),
            cm_colour cmap (frac (spec_colour_fraction (show_perception_sine st)
                                    (real_of_int j) (real (unat (numsegs st))) nro)))"
proof -
  have "frac (x + 1) = frac x"
    by (simp add: frac_def)
  then show ?thesis
    using assms by (simp add: convert_def segment_colours_eq)
qed

theorem cyclic_convert_witness:
  "cm_cyclic cyclic_ramp \<and>
   convert cyclic_ramp (1 / 4 + 1) = convert cyclic_ramp (1 / 4) \<and>
   convert cyclic_ramp (1 / 4) = (1 / 4, 1 / 4, 1 / 4)"
proof -
  have c: "cm_cyclic cyclic_ramp" by (simp add: cyclic_ramp_def)
  have "frac (1 / 4 :: real) = 1 / 4" by (simp add: frac_def)
  then have "convert cyclic_ramp (1 / 4) = (1 / 4, 1 / 4, 1 / 4)"
    by (simp add: convert_def cyclic_ramp_def grey_ramp_def)
  then show ?thesis
    using cyclic_convert[OF c, of "1 / 4"] c by simp
qed

text \<open>
  Claim C8. For a colour map of the Jet family with a range that is not degenerate, a value
  whose normalized fraction \<open>(value - range_min) / (range_max - range_min)\<close> is one half is
  converted to the triple \<open>(0.541, 0.76, 0.018)\<close>, whatever the numeric type the value and the
  range come from.
\<close>

theorem jet_midpoint_convert:
  assumes "is_jet cmap" and "range_max cmap \<noteq> range_min cmap"
    and "(v - range_min cmap) / (range_max cmap - range_min cmap) = 1 / 2"
  shows "convert_value cmap v = Some (0.541, 0.76, 0.018)"
proof -
  have "convert_value cmap v = Some (convert cmap (1 / 2))"
    using assms(2) by (simp only: convert_value_def assms(3)) simp
  also have "convert cmap (1 / 2) = cm_colour cmap (1 / 2)"
    using assms(1) by (simp add: convert_def is_jet_def)
  also have "\<dots> = (0.541, 0.76, 0.018)"
    using assms(1) by (simp add: is_jet_def jet_midpoint_def)
  finally show ?thesis .
qed

text \<open>
  The configurations of \<open>tests/testColourMap.cpp\<close>: \<open>float\<close> and \<open>double\<close> at 0.5 on the range
  from 0 to 1, and the integer types with \<open>range_max\<close> set to 254, 126, 20000, 10000, 1000, 256
  and 1000000 at the values 127, 63, 10000, 5000, 500, 128 and 500000.
\<close>

theorem jet_midpoint_convert_witness:
  "is_jet jet_like \<and>
   convert_value jet_like (1 / 2) = Some (0.541, 0.76, 0.018) \<and>
   convert_value (jet_like\<lparr>range_max := 254\<rparr>) 127 = Some (0.541, 0.76, 0.018) \<and>
   convert_value (jet_like\<lparr>range_max := 126\<rparr>) 63 = Some (0.541, 0.76, 0.018) \<and>
   convert_value (jet_like\<lparr>range_max := 20000\<rparr>) 10000 = Some (0.541, 0.76, 0.018) \<and>
   convert_value (jet_like\<lparr>range_max := 10000\<rparr>) 5000 = Some (0.541, 0.76, 0.018) \<and>
   convert_value (jet_like\<lparr>range_max := 1000\<rparr>) 500 = Some (0.541, 0.76, 0.018) \<and>
   convert_value (jet_like\<lparr>range_max := 256\<rparr>) 128 = Some (0.541, 0.76, 0.018) \<and>
   convert_value (jet_like\<lparr>range_max := 1000000\<rparr>) 500000 = Some (0.541, 0.76, 0.018)"
proof -
  have j: "is_jet (jet_like\<lparr>range_max := m\<rparr>)" for m
    by (simp add: is_jet_def jet_like_def)
  have j0: "is_jet jet_like" by (simp add: is_jet_def jet_like_def)
  have r: "range_max (jet_like\<lparr>range_max := m\<rparr>) = m"
          "range_min (jet_like\<lparr>range_max := m\<rparr>) = 0" for m
    by (simp_all add: jet_like_def)
  have r0: "range_max jet_like = 1" "range_min jet_like = 0"
    by (simp_all add: jet_like_def)
  show ?thesis
    using j0 jet_midpoint_convert[OF j0, of "1 / 2"]
      jet_midpoint_convert[OF j, of 254 127]
      jet_midpoint_convert[OF j, of 126 63]
      jet_midpoint_convert[OF j, of 20000 10000]
      jet_midpoint_convert[OF j, of 10000 5000]
      jet_midpoint_convert[OF j, of 1000 500]
      jet_midpoint_convert[OF j, of 256 128]
      jet_midpoint_convert[OF j, of 1000000 500000]
    by (simp add: r r0)
qed

end
